theory Spec2Isabelle
  imports Main "HOL-Library.Word"
begin

unbundle bit_operations_syntax

section \<open>Python values\<close>

text \<open>
  A Python \<open>str\<close> is a sequence of Unicode code points, a \<open>bytes\<close> object a sequence
  of octets. String literals of the source are written with \<open>str_of\<close>.
\<close>

type_synonym byte = "8 word"
type_synonym str = "nat list"

definition str_of :: "string \<Rightarrow> str" where
  "str_of cs = map of_char cs"

text \<open>
  \<open>str.strip()\<close> without argument removes leading and trailing characters for which
  \<open>str.isspace()\<close> holds: the ASCII controls TAB..CR and FS..US, the space, NEL, NBSP and
  the Unicode space separators.
\<close>

definition py_isspace :: "nat \<Rightarrow> bool" where
  "py_isspace c \<longleftrightarrow>
     (9 \<le> c \<and> c \<le> 13) \<or> (28 \<le> c \<and> c \<le> 32) \<or> c = 133 \<or> c = 160 \<or> c = 5760 \<or>
     (8192 \<le> c \<and> c \<le> 8202) \<or> c = 8232 \<or> c = 8233 \<or> c = 8239 \<or> c = 8287 \<or> c = 12288"

definition py_lstrip :: "str \<Rightarrow> str" where
  "py_lstrip s = dropWhile py_isspace s"

definition py_rstrip :: "str \<Rightarrow> str" where
  "py_rstrip s = rev (dropWhile py_isspace (rev s))"

definition py_strip :: "str \<Rightarrow> str" where
  "py_strip s = py_rstrip (py_lstrip s)"

text \<open>
  \<open>c.lower()\<close> of a one-character string. Only the ASCII letters are mapped here: the
  lower-case form of a code point beyond ASCII is never a member of \<open>0123456789abcdef\<close>
  (the two code points whose lower-case form contains an ASCII letter are KELVIN SIGN,
  giving \<open>k\<close>, and LATIN CAPITAL LETTER I WITH DOT ABOVE, giving \<open>i\<close> and a combining
  dot), so the membership test of the source is decided by this mapping.
\<close>

definition py_lower :: "nat \<Rightarrow> str" where
  "py_lower c = (if 65 \<le> c \<and> c \<le> 90 then [c + 32] else [c])"

text \<open>\<open>str(n)\<close> for a non-negative integer: its decimal digits.\<close>

function py_str_nat :: "nat \<Rightarrow> string" where
  "py_str_nat n =
     (if n < 10 then [char_of (48 + n)] else py_str_nat (n div 10) @ [char_of (48 + n mod 10)])"
  by pat_completeness auto
termination
  by (relation "measure id") auto

declare py_str_nat.simps [simp del]

text \<open>
  \<open>bytes.decode("utf-8")\<close> with the default strict error handler: well-formed UTF-8 only
  (no overlong forms, no surrogates, nothing beyond U+10FFFF); \<open>None\<close> stands for the
  \<open>UnicodeDecodeError\<close> raised otherwise.
\<close>

definition utf8_cont :: "byte \<Rightarrow> bool" where
  "utf8_cont b \<longleftrightarrow> 128 \<le> unat b \<and> unat b \<le> 191"

definition utf8_low :: "byte \<Rightarrow> nat" where
  "utf8_low b = unat b mod 64"

fun utf8_decode :: "byte list \<Rightarrow> str option" where
  "utf8_decode [] = Some []"
| "utf8_decode (b # bs) =
     (let n = unat b in
      if n < 128 then map_option ((#) n) (utf8_decode bs)
      else if 194 \<le> n \<and> n \<le> 223 then
        (case bs of
           b1 # r \<Rightarrow>
             if utf8_cont b1
             then map_option ((#) ((n mod 32) * 64 + utf8_low b1)) (utf8_decode r)
             else None
         | _ \<Rightarrow> None)
      else if 224 \<le> n \<and> n \<le> 239 then
        (case bs of
           b1 # b2 # r \<Rightarrow>
             if utf8_cont b1 \<and> utf8_cont b2 \<and> (n = 224 \<longrightarrow> 160 \<le> unat b1)
                \<and> (n = 237 \<longrightarrow> unat b1 \<le> 159)
             then map_option ((#) ((n mod 16) * 4096 + utf8_low b1 * 64 + utf8_low b2))
                    (utf8_decode r)
             else None
         | _ \<Rightarrow> None)
      else if 240 \<le> n \<and> n \<le> 244 then
        (case bs of
           b1 # b2 # b3 # r \<Rightarrow>
             if utf8_cont b1 \<and> utf8_cont b2 \<and> utf8_cont b3 \<and> (n = 240 \<longrightarrow> 144 \<le> unat b1)
                \<and> (n = 244 \<longrightarrow> unat b1 \<le> 143)
             then map_option
                    ((#) ((n mod 8) * 262144 + utf8_low b1 * 4096 + utf8_low b2 * 64 + utf8_low b3))
                    (utf8_decode r)
             else None
         | _ \<Rightarrow> None)
      else None)"

section \<open>Exceptions\<close>

text \<open>
  The exception classes the program raises or catches. \<open>UnicodeDecodeError\<close>,
  \<open>UnicodeEncodeError\<close> and \<open>binascii.Error\<close> are subclasses of \<open>ValueError\<close>;
  \<open>FileNotFoundError\<close>, \<open>FileExistsError\<close>, \<open>IsADirectoryError\<close> and
  \<open>NotADirectoryError\<close> are subclasses of \<open>OSError\<close>.
\<close>

datatype exn =
    RuntimeError string
  | ValueError string
  | UnicodeDecodeError
  | BinasciiError
  | FileNotFoundError string
  | FileExistsError
  | IsADirectoryError
  | NotADirectoryError
  | UnicodeEncodeError

fun is_ValueError :: "exn \<Rightarrow> bool" where
  "is_ValueError (ValueError m) = True"
| "is_ValueError UnicodeDecodeError = True"
| "is_ValueError BinasciiError = True"
| "is_ValueError UnicodeEncodeError = True"
| "is_ValueError e = False"

fun is_FileNotFoundError :: "exn \<Rightarrow> bool" where
  "is_FileNotFoundError (FileNotFoundError m) = True"
| "is_FileNotFoundError e = False"

section \<open>Decryption and validation of the seed\<close>

text \<open>
  The private key object is used only through \<open>private_key.decrypt(ciphertext, OAEP(MGF1(SHA256),
  SHA256, None))\<close>. The RSA computation belongs to the \<open>cryptography\<close> package; a key is
  modelled by what that call does: it returns the plaintext, or raises (\<open>None\<close>).
\<close>

type_synonym private_key = "byte list \<Rightarrow> byte list option"

definition valid_hex_chars :: "str set" where
  "valid_hex_chars = set (map (\<lambda>c. [c]) (str_of ''0123456789abcdef''))"

definition decrypt_seed_from_bytes :: "byte list \<Rightarrow> private_key \<Rightarrow> exn + str" where
  "decrypt_seed_from_bytes ciphertext private_key =
     (case private_key ciphertext of
        None \<Rightarrow> Inl (RuntimeError ''Decryption failed (Key or Parameter Mismatch)'')
      | Some plaintext_bytes \<Rightarrow>
          (case utf8_decode plaintext_bytes of
             None \<Rightarrow> Inl UnicodeDecodeError
           | Some text \<Rightarrow>
               (let seed_hex = py_strip text in
                if length seed_hex \<noteq> 64
                then Inl (ValueError (''Invalid seed length: expected 64, got ''
                            @ py_str_nat (length seed_hex)))
                else if \<not> list_all (\<lambda>c. py_lower c \<in> valid_hex_chars) seed_hex
                then Inl (ValueError ''Seed contains non-hex characters'')
                else Inr seed_hex)))"

section \<open>The seed file\<close>

text \<open>
  The file system as the program sees it: the regular files with their text content and
  the directories, both named by path. Paths are compared as written (no links, no
  normalisation), the content of a file is the text as it was written (the seed file holds
  ASCII only; the translation of line endings happens at reading), and permissions and
  device errors are outside the model.
\<close>

record filesystem =
  files :: "str \<rightharpoonup> str"
  dirs :: "str set"

definition path_exists :: "filesystem \<Rightarrow> str \<Rightarrow> bool" where
  "path_exists fs p \<longleftrightarrow> files fs p \<noteq> None \<or> p \<in> dirs fs"

text \<open>\<open>os.path.dirname\<close> on POSIX: the path up to its last slash, trailing slashes removed
  unless nothing else is left.\<close>

definition dirname :: "str \<Rightarrow> str" where
  "dirname p =
     (let head = rev (dropWhile (\<lambda>c. c \<noteq> 47) (rev p)) in
      if head \<noteq> [] \<and> \<not> list_all (\<lambda>c. c = 47) head
      then rev (dropWhile (\<lambda>c. c = 47) (rev head))
      else head)"

text \<open>
  The directories above a path, nearest first: \<open>dirname\<close> repeated until it gives the
  empty path or no longer shortens the path (the root).
\<close>

function ancestors :: "str \<Rightarrow> str list" where
  "ancestors p =
     (if dirname p = [] \<or> length p \<le> length (dirname p) then []
      else dirname p # ancestors (dirname p))"
  by pat_completeness auto
termination
  by (relation "measure length") auto

declare ancestors.simps [simp del]

text \<open>
  \<open>os.makedirs(d, exist_ok=True)\<close>: the empty path cannot be created; an existing
  directory is accepted; a regular file at \<open>d\<close> is \<open>FileExistsError\<close>; a regular file
  at a path above \<open>d\<close> is \<open>NotADirectoryError\<close>, and nothing is created; otherwise \<open>d\<close>
  is created together with the directories above it that are missing.
\<close>

definition makedirs :: "str \<Rightarrow> filesystem \<Rightarrow> exn + filesystem" where
  "makedirs d fs =
     (if d = [] then Inl (FileNotFoundError ''No such file or directory'')
      else if d \<in> dirs fs then Inr fs
      else if files fs d \<noteq> None then Inl FileExistsError
      else if list_ex (\<lambda>a. files fs a \<noteq> None) (ancestors d) then Inl NotADirectoryError
      else Inr (fs\<lparr>dirs := dirs fs \<union> set (d # ancestors d)\<rparr>))"

text \<open>\<open>open(p, "w")\<close> creates the file or truncates it.\<close>

definition open_w :: "str \<Rightarrow> filesystem \<Rightarrow> exn + filesystem" where
  "open_w p fs =
     (if p \<in> dirs fs then Inl IsADirectoryError
      else Inr (fs\<lparr>files := (files fs)(p \<mapsto> [])\<rparr>))"

text \<open>One character of the written text reaching the open file.\<close>

definition put_char :: "str \<Rightarrow> nat \<Rightarrow> filesystem \<Rightarrow> exn + filesystem" where
  "put_char p c fs =
     (case files fs p of
        None \<Rightarrow> Inl (FileNotFoundError ''No such file or directory'')
      | Some old \<Rightarrow> Inr (fs\<lparr>files := (files fs)(p \<mapsto> old @ [c])\<rparr>))"

text \<open>\<open>os.replace(src, dst)\<close>: one step that makes \<open>dst\<close> name the content of \<open>src\<close> and
  removes the name \<open>src\<close>.\<close>

definition os_replace :: "str \<Rightarrow> str \<Rightarrow> filesystem \<Rightarrow> exn + filesystem" where
  "os_replace src dst fs =
     (case files fs src of
        None \<Rightarrow> Inl (FileNotFoundError ''No such file or directory'')
      | Some content \<Rightarrow>
          if dst \<in> dirs fs then Inl IsADirectoryError
          else Inr (fs\<lparr>files := ((files fs)(src := None))(dst \<mapsto> content)\<rparr>))"

text \<open>
  Running file-system operations in order. An exception stops the run; the state reached
  so far stays, as on a disk.
\<close>

fun run_ops :: "(filesystem \<Rightarrow> exn + filesystem) list \<Rightarrow> filesystem \<Rightarrow> exn option \<times> filesystem" where
  "run_ops [] fs = (None, fs)"
| "run_ops (f # fs_ops) fs =
     (case f fs of Inl e \<Rightarrow> (Some e, fs) | Inr fs' \<Rightarrow> run_ops fs_ops fs')"

text \<open>
  \<open>save_seed_atomic\<close> as the sequence of its effects on the file system: create the
  directory, open the temporary file, write the text (character by character, the finest
  grain in which a write can reach the disk), replace the seed file.
\<close>

definition save_data :: "str \<Rightarrow> str" where
  "save_data seed_hex = py_strip seed_hex @ [10]"

definition tmp_path_of :: "str \<Rightarrow> str" where
  "tmp_path_of path = path @ str_of ''.tmp''"

definition save_ops :: "str \<Rightarrow> str \<Rightarrow> (filesystem \<Rightarrow> exn + filesystem) list" where
  "save_ops seed_hex path =
     [makedirs (dirname path), open_w (tmp_path_of path)]
     @ map (put_char (tmp_path_of path)) (save_data seed_hex)
     @ [os_replace (tmp_path_of path) path]"

definition save_seed_atomic :: "str \<Rightarrow> str \<Rightarrow> filesystem \<Rightarrow> exn option \<times> filesystem" where
  "save_seed_atomic seed_hex path fs = run_ops (save_ops seed_hex path) fs"

text \<open>A save interrupted after its first \<open>k\<close> effects.\<close>

definition save_interrupted :: "nat \<Rightarrow> str \<Rightarrow> str \<Rightarrow> filesystem \<Rightarrow> exn option \<times> filesystem" where
  "save_interrupted k seed_hex path fs = run_ops (take k (save_ops seed_hex path)) fs"

text \<open>
  The effects of a save before the replace, and what it means for an operation to leave the
  file named \<open>p\<close> alone.
\<close>

definition save_prefix :: "str \<Rightarrow> str \<Rightarrow> (filesystem \<Rightarrow> exn + filesystem) list" where
  "save_prefix seed_hex path =
     [makedirs (dirname path), open_w (tmp_path_of path)]
     @ map (put_char (tmp_path_of path)) (save_data seed_hex)"

definition keeps :: "str \<Rightarrow> (filesystem \<Rightarrow> exn + filesystem) \<Rightarrow> bool" where
  "keeps p f \<longleftrightarrow> (\<forall>fs fs'. f fs = Inr fs' \<longrightarrow> files fs' p = files fs p)"

text \<open>
  Reading a file opened with \<open>open(path, "r")\<close>: the text mode translates the line
  endings \<open>CR LF\<close> and \<open>CR\<close> to \<open>LF\<close>.
\<close>

fun universal_newlines :: "str \<Rightarrow> str" where
  "universal_newlines [] = []"
| "universal_newlines [c] = [if c = 13 then 10 else c]"
| "universal_newlines (c # d # r) =
     (if c = 13 \<and> d = 10 then 10 # universal_newlines r
      else (if c = 13 then 10 else c) # universal_newlines (d # r))"

definition read_seed :: "str \<Rightarrow> filesystem \<Rightarrow> exn + str" where
  "read_seed path fs =
     (if \<not> path_exists fs path then Inl (FileNotFoundError ''Seed not found'')
      else
        (case files fs path of
           None \<Rightarrow> Inl IsADirectoryError
         | Some content \<Rightarrow>
             (let s = py_strip (universal_newlines content) in
              if length s \<noteq> 64 then Inl (ValueError ''Stored seed invalid length'')
              else Inr s)))"

text \<open>The Seed invariant of the data model: exactly 64 characters, each a hexadecimal digit.\<close>

definition is_hex_digit :: "nat \<Rightarrow> bool" where
  "is_hex_digit c \<longleftrightarrow> (48 \<le> c \<and> c \<le> 57) \<or> (65 \<le> c \<and> c \<le> 70) \<or> (97 \<le> c \<and> c \<le> 102)"

definition seed_invariant :: "str \<Rightarrow> bool" where
  "seed_invariant s \<longleftrightarrow> length s = 64 \<and> list_all is_hex_digit s"

section \<open>The provisioning endpoint\<close>

text \<open>
  \<open>base64.b64decode\<close> of a \<open>str\<close>: a character beyond ASCII raises \<open>ValueError\<close>;
  otherwise the decoder of \<open>binascii\<close> runs in its lenient mode: characters outside the
  alphabet are skipped, a pad that completes a quad ends the input, and data that ends inside
  a quad raises \<open>binascii.Error\<close>. The state is the position in the quad, the bits left
  over from the previous character, the pads seen since the last data character and the
  bytes produced.
\<close>

definition b64_value :: "nat \<Rightarrow> nat option" where
  "b64_value c =
     (if 65 \<le> c \<and> c \<le> 90 then Some (c - 65)
      else if 97 \<le> c \<and> c \<le> 122 then Some (c - 71)
      else if 48 \<le> c \<and> c \<le> 57 then Some (c + 4)
      else if c = 43 then Some 62
      else if c = 47 then Some 63
      else None)"

fun a2b_base64 :: "str \<Rightarrow> nat \<Rightarrow> nat \<Rightarrow> nat \<Rightarrow> byte list \<Rightarrow> exn + byte list" where
  "a2b_base64 [] quad_pos leftchar pads out =
     (if quad_pos \<noteq> 0 then Inl BinasciiError else Inr out)"
| "a2b_base64 (c # cs) quad_pos leftchar pads out =
     (if c = 61 then
        (if quad_pos \<ge> 2 \<and> quad_pos + (pads + 1) \<ge> 4 then Inr out
         else a2b_base64 cs quad_pos leftchar (if quad_pos \<ge> 2 then pads + 1 else pads) out)
      else
        (case b64_value c of
           None \<Rightarrow> a2b_base64 cs quad_pos leftchar pads out
         | Some v \<Rightarrow>
             if quad_pos = 0 then a2b_base64 cs 1 v 0 out
             else if quad_pos = 1
               then a2b_base64 cs 2 (v mod 16) 0 (out @ [of_nat (leftchar * 4 + v div 16)])
             else if quad_pos = 2
               then a2b_base64 cs 3 (v mod 4) 0 (out @ [of_nat (leftchar * 16 + v div 4)])
             else a2b_base64 cs 0 0 0 (out @ [of_nat (leftchar * 64 + v)])))"

definition b64decode :: "str \<Rightarrow> exn + byte list" where
  "b64decode s =
     (if \<not> list_all (\<lambda>c. c < 128) s
      then Inl (ValueError ''string argument should contain only ASCII characters'')
      else a2b_base64 s 0 0 0 [])"

text \<open>
  The module state fixed at import: the key (\<open>None\<close> when loading failed), the recorded
  text of the load error, and the configured path of the seed file. Reading and parsing the
  PEM file is the library's work; \<open>load_pem\<close> stands for it and gives \<open>None\<close> where
  it raises. (The message of the \<open>RuntimeError\<close>, which in the source also names the path
  and the cause, is shortened.)
\<close>

record server =
  PRIVATE_KEY :: "private_key option"
  privkey_load_error :: "exn option"
  SEED_PATH :: str

definition load_private_key :: "(str \<Rightarrow> private_key option) \<Rightarrow> str \<Rightarrow> exn + private_key" where
  "load_private_key load_pem path =
     (case load_pem path of
        Some key \<Rightarrow> Inr key
      | None \<Rightarrow> Inl (RuntimeError ''Failed to load private key''))"

definition startup :: "(str \<Rightarrow> private_key option) \<Rightarrow> str \<Rightarrow> str \<Rightarrow> server" where
  "startup load_pem private_key_path seed_path =
     (case load_private_key load_pem private_key_path of
        Inl e \<Rightarrow> \<lparr>PRIVATE_KEY = None, privkey_load_error = Some e, SEED_PATH = seed_path\<rparr>
      | Inr key \<Rightarrow> \<lparr>PRIVATE_KEY = Some key, privkey_load_error = None, SEED_PATH = seed_path\<rparr>)"

text \<open>
  What an endpoint gives back: an \<open>HTTPException\<close> with its status code and the
  \<open>error\<close> entry of its detail (a fixed message, or the text of a caught exception), or
  the JSON body of a success.
\<close>

datatype detail = Message string | TextOf exn

datatype response =
    HTTPException nat detail
  | StatusOk
  | CodeBody str int
  | ValidBody bool

definition decrypt_seed_endpoint :: "server \<Rightarrow> str \<Rightarrow> filesystem \<Rightarrow> response \<times> filesystem" where
  "decrypt_seed_endpoint srv encrypted_seed fs =
     (if encrypted_seed = [] then (HTTPException 400 (Message ''Missing encrypted_seed''), fs)
      else
        (case PRIVATE_KEY srv of
           None \<Rightarrow> (HTTPException 500 (Message ''Server private key not available''), fs)
         | Some key \<Rightarrow>
             (case b64decode encrypted_seed of
                Inl e \<Rightarrow> (HTTPException 400 (Message ''Invalid base64''), fs)
              | Inr ciphertext \<Rightarrow>
                  (case decrypt_seed_from_bytes ciphertext key of
                     Inl e \<Rightarrow>
                       if is_ValueError e then (HTTPException 400 (TextOf e), fs)
                       else (HTTPException 500 (Message ''Decryption failed''), fs)
                   | Inr seed_hex \<Rightarrow>
                       (case save_seed_atomic seed_hex (SEED_PATH srv) fs of
                          (Some e, fs') \<Rightarrow>
                            (HTTPException 500 (Message ''Failed to persist seed''), fs')
                        | (None, fs') \<Rightarrow> (StatusOk, fs'))))))"


section \<open>Hexadecimal and base32\<close>

text \<open>
  \<open>bytes.fromhex\<close>: two hexadecimal digits per byte; ASCII whitespace is skipped before
  each pair, never inside one; anything else raises \<open>ValueError\<close> (\<open>None\<close>).
\<close>

definition is_ascii_space :: "nat \<Rightarrow> bool" where
  "is_ascii_space c \<longleftrightarrow> (9 \<le> c \<and> c \<le> 13) \<or> c = 32"

definition hex_value :: "nat \<Rightarrow> nat option" where
  "hex_value c =
     (if 48 \<le> c \<and> c \<le> 57 then Some (c - 48)
      else if 97 \<le> c \<and> c \<le> 102 then Some (c - 87)
      else if 65 \<le> c \<and> c \<le> 70 then Some (c - 55)
      else None)"

fun fromhex :: "str \<Rightarrow> byte list option" where
  "fromhex [] = Some []"
| "fromhex [c] = (if is_ascii_space c then Some [] else None)"
| "fromhex (c # d # r) =
     (if is_ascii_space c then fromhex (d # r)
      else
        (case hex_value c of
           None \<Rightarrow> None
         | Some hi \<Rightarrow>
             (case hex_value d of
                None \<Rightarrow> None
              | Some lo \<Rightarrow> map_option ((#) (of_nat (16 * hi + lo))) (fromhex r))))"

text \<open>
  \<open>base64.b32encode\<close>: the input is padded with zero bytes to a multiple of five, each
  five bytes are read as one big-endian number and written as eight characters of the
  alphabet, and the characters that stand for padding only are replaced by \<open>=\<close>.
\<close>

definition b32_alphabet :: str where
  "b32_alphabet = str_of ''ABCDEFGHIJKLMNOPQRSTUVWXYZ234567''"

definition from_bytes :: "byte list \<Rightarrow> nat" where
  "from_bytes bs = foldl (\<lambda>acc b. acc * 256 + unat b) 0 bs"

definition b32_quantum :: "nat \<Rightarrow> str" where
  "b32_quantum c = map (\<lambda>k. b32_alphabet ! ((c div 32 ^ k) mod 32)) [7, 6, 5, 4, 3, 2, 1, 0]"

function b32_chunks :: "byte list \<Rightarrow> str" where
  "b32_chunks s =
     (if s = [] then [] else b32_quantum (from_bytes (take 5 s)) @ b32_chunks (drop 5 s))"
  by pat_completeness auto
termination
  by (relation "measure length") auto

declare b32_chunks.simps [simp del]

definition b32_npad :: "nat \<Rightarrow> nat" where
  "b32_npad leftover =
     (if leftover = 1 then 6 else if leftover = 2 then 4 else if leftover = 3 then 3
      else if leftover = 4 then 1 else 0)"

definition b32encode :: "byte list \<Rightarrow> str" where
  "b32encode s =
     (let leftover = length s mod 5;
          padded = (if leftover \<noteq> 0 then s @ replicate (5 - leftover) 0 else s);
          encoded = b32_chunks padded
      in take (length encoded - b32_npad leftover) encoded @ replicate (b32_npad leftover) 61)"

definition hex_to_base32 :: "str \<Rightarrow> exn + str" where
  "hex_to_base32 hex_seed =
     (case fromhex hex_seed of
        None \<Rightarrow> Inl (ValueError ''Invalid hex seed'')
      | Some seed_bytes \<Rightarrow> Inr (filter (\<lambda>c. c \<noteq> 61) (py_strip (b32encode seed_bytes))))"

text \<open>
  \<open>base64.b32decode(s, casefold=True)\<close> on a \<open>str\<close>: ASCII only, a length that is a
  multiple of eight, letters folded to upper case, the trailing \<open>=\<close> counted and removed,
  each group of up to eight characters accumulated into a number and written as five
  bytes, and the last five bytes cut down according to the padding.
\<close>

definition b32_rev :: "nat \<Rightarrow> nat option" where
  "b32_rev c =
     (if 65 \<le> c \<and> c \<le> 90 then Some (c - 65)
      else if 50 \<le> c \<and> c \<le> 55 then Some (c - 24)
      else None)"

definition ascii_upper :: "nat \<Rightarrow> nat" where
  "ascii_upper c = (if 97 \<le> c \<and> c \<le> 122 then c - 32 else c)"

fun b32_acc :: "str \<Rightarrow> nat \<Rightarrow> nat option" where
  "b32_acc [] acc = Some acc"
| "b32_acc (c # cs) acc =
     (case b32_rev c of None \<Rightarrow> None | Some v \<Rightarrow> b32_acc cs (acc * 32 + v))"

definition to_bytes5 :: "nat \<Rightarrow> byte list" where
  "to_bytes5 n = map (\<lambda>k. of_nat ((n div 256 ^ k) mod 256)) [4, 3, 2, 1, 0]"

text \<open>The loop over the groups: the bytes decoded so far and the number of the last group.\<close>

function b32_quanta :: "str \<Rightarrow> byte list \<Rightarrow> nat \<Rightarrow> (byte list \<times> nat) option" where
  "b32_quanta s decoded acc =
     (if s = [] then Some (decoded, acc)
      else
        (case b32_acc (take 8 s) 0 of
           None \<Rightarrow> None
         | Some a \<Rightarrow> b32_quanta (drop 8 s) (decoded @ to_bytes5 a) a))"
  by pat_completeness auto
termination
  by (relation "measure (\<lambda>(s, decoded, acc). length s)") auto

declare b32_quanta.simps [simp del]

definition b32decode :: "str \<Rightarrow> exn + byte list" where
  "b32decode s0 =
     (if \<not> list_all (\<lambda>c. c < 128) s0
      then Inl (ValueError ''string argument should contain only ASCII characters'')
      else if length s0 mod 8 \<noteq> 0 then Inl BinasciiError
      else
        (let s = map ascii_upper s0;
             l = length s;
             stripped = rev (dropWhile (\<lambda>c. c = 61) (rev s));
             padchars = l - length stripped
         in
           (case b32_quanta stripped [] 0 of
              None \<Rightarrow> Inl BinasciiError
            | Some (decoded, acc) \<Rightarrow>
                if padchars \<notin> {0, 1, 3, 4, 6} then Inl BinasciiError
                else if padchars \<noteq> 0 \<and> decoded \<noteq> []
                then Inr (take (length decoded - 5) decoded
                          @ take ((43 - 5 * padchars) div 8) (to_bytes5 (acc * 32 ^ padchars)))
                else Inr decoded)))"

section \<open>SHA-1 and HMAC\<close>

text \<open>
  The digest of \<open>hashlib.sha1\<close> and \<open>hmac.new(key, msg, hashlib.sha1)\<close>, written out from
  FIPS 180-4 and RFC 2104. Octets and 32-bit words are natural numbers; every sum is reduced
  modulo \<open>2 ^ 32\<close>.
\<close>

type_synonym sha1_state = "nat \<times> nat \<times> nat \<times> nat \<times> nat"

definition rotl32 :: "nat \<Rightarrow> nat \<Rightarrow> nat" where
  "rotl32 n x = ((x * 2 ^ n) mod 4294967296) OR (x div 2 ^ (32 - n))"

definition sha1_f :: "nat \<Rightarrow> nat \<Rightarrow> nat \<Rightarrow> nat \<Rightarrow> nat" where
  "sha1_f t b c d =
     (if t < 20 then (b AND c) OR ((b XOR 4294967295) AND d)
      else if t < 40 then b XOR c XOR d
      else if t < 60 then (b AND c) OR (b AND d) OR (c AND d)
      else b XOR c XOR d)"

definition sha1_k :: "nat \<Rightarrow> nat" where
  "sha1_k t =
     (if t < 20 then 0x5A827999 else if t < 40 then 0x6ED9EBA1
      else if t < 60 then 0x8F1BBCDC else 0xCA62C1D6)"

fun block_words :: "nat list \<Rightarrow> nat list" where
  "block_words (a # b # c # d # r) = (((a * 256 + b) * 256 + c) * 256 + d) # block_words r"
| "block_words r = []"

fun sha1_round :: "nat \<Rightarrow> nat \<Rightarrow> sha1_state \<Rightarrow> sha1_state" where
  "sha1_round t w (a, b, c, d, e) =
     ((rotl32 5 a + sha1_f t b c d + e + sha1_k t + w) mod 4294967296, a, rotl32 30 b, c, d)"

text \<open>The message schedule as a window of sixteen words, the word of the current round first.\<close>

definition next_window :: "nat list \<Rightarrow> nat list" where
  "next_window ws = tl ws @ [rotl32 1 (ws ! 13 XOR ws ! 8 XOR ws ! 2 XOR ws ! 0)]"

function sha1_rounds :: "nat \<Rightarrow> nat list \<Rightarrow> sha1_state \<Rightarrow> sha1_state" where
  "sha1_rounds t ws s =
     (if t \<ge> 80 then s else sha1_rounds (t + 1) (next_window ws) (sha1_round t (hd ws) s))"
  by pat_completeness auto
termination
  by (relation "measure (\<lambda>(t, ws, s). 80 - t)") auto

declare sha1_rounds.simps [simp del]

fun add_state :: "sha1_state \<Rightarrow> sha1_state \<Rightarrow> sha1_state" where
  "add_state (h0, h1, h2, h3, h4) (a, b, c, d, e) =
     ((h0 + a) mod 4294967296, (h1 + b) mod 4294967296, (h2 + c) mod 4294967296,
      (h3 + d) mod 4294967296, (h4 + e) mod 4294967296)"

definition sha1_compress :: "sha1_state \<Rightarrow> nat list \<Rightarrow> sha1_state" where
  "sha1_compress h blk = add_state h (sha1_rounds 0 (block_words blk) h)"

function sha1_blocks :: "sha1_state \<Rightarrow> nat list \<Rightarrow> sha1_state" where
  "sha1_blocks h m =
     (if length m < 64 then h else sha1_blocks (sha1_compress h (take 64 m)) (drop 64 m))"
  by pat_completeness auto
termination
  by (relation "measure (\<lambda>(h, m). length m)") auto

declare sha1_blocks.simps [simp del]

definition sha1_pad :: "nat list \<Rightarrow> nat list" where
  "sha1_pad m =
     m @ [128] @ replicate ((119 - length m mod 64) mod 64) 0
       @ map (\<lambda>k. ((8 * length m) div 256 ^ k) mod 256) [7, 6, 5, 4, 3, 2, 1, 0]"

definition word_bytes :: "nat \<Rightarrow> nat list" where
  "word_bytes w = [w div 16777216 mod 256, w div 65536 mod 256, w div 256 mod 256, w mod 256]"

fun state_bytes :: "sha1_state \<Rightarrow> nat list" where
  "state_bytes (a, b, c, d, e) =
     word_bytes a @ word_bytes b @ word_bytes c @ word_bytes d @ word_bytes e"

definition sha1_init :: sha1_state where
  "sha1_init = (0x67452301, 0xEFCDAB89, 0x98BADCFE, 0x10325476, 0xC3D2E1F0)"

definition sha1 :: "nat list \<Rightarrow> nat list" where
  "sha1 m = state_bytes (sha1_blocks sha1_init (sha1_pad m))"

definition hmac_sha1 :: "nat list \<Rightarrow> nat list \<Rightarrow> nat list" where
  "hmac_sha1 key msg =
     (let k0 = (if length key > 64 then sha1 key else key);
          k = k0 @ replicate (64 - length k0) 0
      in sha1 (map (\<lambda>b. b XOR 92) k @ sha1 (map (\<lambda>b. b XOR 54) k @ msg)))"

section \<open>One-time passwords\<close>

text \<open>
  The parts of \<open>pyotp\<close> the program calls: \<open>TOTP(secret)\<close> with its defaults (six digits,
  SHA-1, a step of 30 seconds), \<open>now\<close> and \<open>verify\<close>.
\<close>

function be_digits :: "nat \<Rightarrow> nat list" where
  "be_digits i = (if i = 0 then [] else be_digits (i div 256) @ [i mod 256])"
  by pat_completeness auto
termination
  by (relation "measure id") auto

declare be_digits.simps [simp del]

definition int_to_bytestring :: "nat \<Rightarrow> nat list" where
  "int_to_bytestring i = replicate (8 - length (be_digits i)) 0 @ be_digits i"

definition byte_secret :: "str \<Rightarrow> exn + byte list" where
  "byte_secret secret =
     (let missing_padding = length secret mod 8 in
      b32decode (if missing_padding \<noteq> 0 then secret @ replicate (8 - missing_padding) 61
                 else secret))"

definition truncate_code :: "nat list \<Rightarrow> nat" where
  "truncate_code hmac_hash =
     (let offset = last hmac_hash AND 15 in
      ((hmac_hash ! offset AND 127) * 16777216) OR ((hmac_hash ! (offset + 1) AND 255) * 65536)
        OR ((hmac_hash ! (offset + 2) AND 255) * 256) OR (hmac_hash ! (offset + 3) AND 255))"

definition generate_otp :: "str \<Rightarrow> int \<Rightarrow> exn + str" where
  "generate_otp secret input =
     (if input < 0 then Inl (ValueError ''input must be positive integer'')
      else
        (case byte_secret secret of
           Inl e \<Rightarrow> Inl e
         | Inr key \<Rightarrow>
             (let hmac_hash = hmac_sha1 (map unat key) (int_to_bytestring (nat input));
                  str_code = py_str_nat (10000000000 + truncate_code hmac_hash mod 10 ^ 6)
              in Inr (str_of (drop (length str_code - 6) str_code)))))"

text \<open>
  \<open>timecode\<close>: the clock in whole seconds since the epoch, divided by the step and cut
  towards zero by \<open>int\<close>. (The source divides floating-point numbers; the quotient is exact
  for every clock reading below \<open>2 ^ 53\<close> seconds.)
\<close>

definition timecode :: "int \<Rightarrow> int" where
  "timecode t = (if t \<ge> 0 then t div 30 else - ((- t) div 30))"

text \<open>
  \<open>unicodedata.normalize("NFKC", s)\<close>. A string of ASCII characters is in every normal
  form and is returned as it is; for any other string the result is given by Unicode's
  tables, which enter as the parameter \<open>nfkc\<close>.
\<close>

definition normalize_NFKC :: "(str \<Rightarrow> str) \<Rightarrow> str \<Rightarrow> str" where
  "normalize_NFKC nfkc s = (if list_all (\<lambda>c. c < 128) s then s else nfkc s)"

text \<open>
  \<open>s.encode("utf-8")\<close>: one to four bytes for each code point; a surrogate
  (\<open>U+D800\<close> to \<open>U+DFFF\<close>) has no encoding and raises \<open>UnicodeEncodeError\<close>.
\<close>

definition utf8_encode_char :: "nat \<Rightarrow> byte list option" where
  "utf8_encode_char c =
     (if c < 128 then Some [of_nat c]
      else if c < 2048 then Some [of_nat (192 + c div 64), of_nat (128 + c mod 64)]
      else if 55296 \<le> c \<and> c \<le> 57343 then None
      else if c < 65536 then
        Some [of_nat (224 + c div 4096), of_nat (128 + c div 64 mod 64), of_nat (128 + c mod 64)]
      else
        Some [of_nat (240 + c div 262144), of_nat (128 + c div 4096 mod 64),
              of_nat (128 + c div 64 mod 64), of_nat (128 + c mod 64)])"

fun utf8_encode :: "str \<Rightarrow> exn + byte list" where
  "utf8_encode [] = Inr []"
| "utf8_encode (c # r) =
     (case utf8_encode_char c of
        None \<Rightarrow> Inl UnicodeEncodeError
      | Some bs \<Rightarrow>
          (case utf8_encode r of
             Inl e \<Rightarrow> Inl e
           | Inr rest \<Rightarrow> Inr (bs @ rest)))"

text \<open>
  \<open>strings_equal\<close> of \<open>pyotp.utils\<close>: both strings are normalised to NFKC, then
  encoded as UTF-8, the first one first, and the bytes are compared by \<open>compare_digest\<close>.
  Nothing is padded or cut.
\<close>

definition strings_equal :: "(str \<Rightarrow> str) \<Rightarrow> str \<Rightarrow> str \<Rightarrow> exn + bool" where
  "strings_equal nfkc s1 s2 =
     (case utf8_encode (normalize_NFKC nfkc s1) of
        Inl e \<Rightarrow> Inl e
      | Inr b1 \<Rightarrow>
          (case utf8_encode (normalize_NFKC nfkc s2) of
             Inl e \<Rightarrow> Inl e
           | Inr b2 \<Rightarrow> Inr (b1 = b2)))"

fun verify_offsets :: "(str \<Rightarrow> str) \<Rightarrow> str \<Rightarrow> str \<Rightarrow> int \<Rightarrow> int list \<Rightarrow> exn + bool" where
  "verify_offsets nfkc secret otp tc [] = Inr False"
| "verify_offsets nfkc secret otp tc (i # offsets) =
     (case generate_otp secret (tc + i) of
        Inl e \<Rightarrow> Inl e
      | Inr c \<Rightarrow>
          (case strings_equal nfkc otp c of
             Inl e \<Rightarrow> Inl e
           | Inr eq \<Rightarrow> if eq then Inr True else verify_offsets nfkc secret otp tc offsets))"

definition totp_verify :: "(str \<Rightarrow> str) \<Rightarrow> str \<Rightarrow> str \<Rightarrow> int \<Rightarrow> int \<Rightarrow> exn + bool" where
  "totp_verify nfkc secret otp for_time valid_window =
     (if valid_window \<noteq> 0
      then verify_offsets nfkc secret otp (timecode for_time) [- valid_window..valid_window]
      else
        (case generate_otp secret (timecode for_time) of
           Inl e \<Rightarrow> Inl e
         | Inr c \<Rightarrow> strings_equal nfkc otp c))"

definition totp_now :: "str \<Rightarrow> int \<Rightarrow> exn + str" where
  "totp_now secret clock = generate_otp secret (timecode clock)"

text \<open>
  The two functions of the program. \<open>generate_totp_from_hex\<close> reads the clock twice: once
  inside \<open>totp.now()\<close>, once for \<open>valid_for\<close>; \<open>clock_code\<close> and \<open>clock_valid\<close> are the
  two readings in whole seconds.
\<close>

definition generate_totp_from_hex :: "str \<Rightarrow> int \<Rightarrow> int \<Rightarrow> exn + (str \<times> int)" where
  "generate_totp_from_hex hex_seed clock_code clock_valid =
     (case hex_to_base32 hex_seed of
        Inl e \<Rightarrow> Inl e
      | Inr b32 \<Rightarrow>
          (case totp_now b32 clock_code of
             Inl e \<Rightarrow> Inl e
           | Inr code \<Rightarrow> Inr (code, 30 - clock_valid mod 30)))"

definition verify_totp_from_hex :: "(str \<Rightarrow> str) \<Rightarrow> str \<Rightarrow> str \<Rightarrow> int \<Rightarrow> int \<Rightarrow> exn + bool" where
  "verify_totp_from_hex nfkc hex_seed code valid_window clock =
     (case hex_to_base32 hex_seed of
        Inl e \<Rightarrow> Inl e
      | Inr b32 \<Rightarrow> totp_verify nfkc b32 code clock valid_window)"

definition generate_2fa_endpoint :: "server \<Rightarrow> filesystem \<Rightarrow> int \<Rightarrow> int \<Rightarrow> response" where
  "generate_2fa_endpoint srv fs clock_code clock_valid =
     (case read_seed (SEED_PATH srv) fs of
        Inl e \<Rightarrow>
          if is_FileNotFoundError e then HTTPException 500 (Message ''Seed not decrypted yet'')
          else HTTPException 500 (Message ''Failed to read seed'')
      | Inr seed_hex \<Rightarrow>
          (case generate_totp_from_hex seed_hex clock_code clock_valid of
             Inl e \<Rightarrow> HTTPException 500 (Message ''Failed to generate TOTP'')
           | Inr (code, valid_for) \<Rightarrow> CodeBody code valid_for))"

definition verify_2fa_endpoint :: "(str \<Rightarrow> str) \<Rightarrow> server \<Rightarrow> str \<Rightarrow> filesystem \<Rightarrow> int \<Rightarrow> response" where
  "verify_2fa_endpoint nfkc srv code fs clock =
     (if code = [] then HTTPException 400 (Message ''Missing code'')
      else
        (case read_seed (SEED_PATH srv) fs of
           Inl e \<Rightarrow>
             if is_FileNotFoundError e then HTTPException 500 (Message ''Seed not decrypted yet'')
             else HTTPException 500 (Message ''Failed to read seed'')
         | Inr seed_hex \<Rightarrow>
             (case verify_totp_from_hex nfkc seed_hex code 1 clock of
                Inl e \<Rightarrow> HTTPException 500 (Message ''Verification failed'')
              | Inr valid \<Rightarrow> ValidBody valid)))"


section \<open>The codec as the specification words it\<close>

text \<open>
  \<open>hexToBytes\<close> of the specification: it decodes a hex string and fails if any character
  is outside \<open>[0-9a-fA-F]\<close> or the length is odd.
\<close>

definition the_hex :: "nat \<Rightarrow> nat" where
  "the_hex c = (case hex_value c of Some v \<Rightarrow> v | None \<Rightarrow> 0)"

fun hex_pairs :: "str \<Rightarrow> byte list" where
  "hex_pairs (c # d # r) = of_nat (16 * the_hex c + the_hex d) # hex_pairs r"
| "hex_pairs r = []"

definition hexToBytes :: "str \<Rightarrow> byte list option" where
  "hexToBytes s =
     (if list_all is_hex_digit s \<and> even (length s) then Some (hex_pairs s) else None)"

section \<open>Concrete inputs\<close>

text \<open>Keys, a server and file systems used where a statement is evaluated.\<close>

definition const_key :: "byte list option \<Rightarrow> private_key" where
  "const_key r ciphertext = r"

definition example_server :: "private_key option \<Rightarrow> server" where
  "example_server k =
     \<lparr>PRIVATE_KEY = k, privkey_load_error = None, SEED_PATH = str_of ''/data/seed.txt''\<rparr>"

definition empty_fs :: filesystem where
  "empty_fs = \<lparr>files = Map.empty, dirs = {}\<rparr>"

definition fs_with_seed :: "str \<Rightarrow> filesystem" where
  "fs_with_seed content =
     \<lparr>files = [str_of ''/data/seed.txt'' \<mapsto> content], dirs = {str_of ''/data''}\<rparr>"

definition zero_secret :: str where
  "zero_secret = replicate 52 65"

definition failing_pem :: "str \<Rightarrow> private_key option" where
  "failing_pem path = None"

definition zero_seed :: str where
  "zero_seed = str_of ''0000000000000000000000000000000000000000000000000000000000000000''"

section \<open>Basic facts\<close>

lemma lower_in_valid_hex_chars: "py_lower c \<in> valid_hex_chars \<longleftrightarrow> is_hex_digit c"
  unfolding valid_hex_chars_def py_lower_def is_hex_digit_def str_of_def
  by (simp, arith)

lemma dropWhile_keep: "xs \<noteq> [] \<Longrightarrow> \<not> P (hd xs) \<Longrightarrow> dropWhile P xs = xs"
  by (cases xs) simp_all

lemma rev_take_drop: "t = rev (dropWhile P (rev t)) @ rev (takeWhile P (rev t))"
proof -
  have "rev (rev t) = rev (takeWhile P (rev t) @ dropWhile P (rev t))"
    by (simp only: takeWhile_dropWhile_id)
  then show ?thesis
    by (simp only: rev_rev_ident rev_append)
qed

lemma list_all_takeWhile: "list_all P (takeWhile P xs)"
  by (induction xs) simp_all

lemma py_strip_decompose:
  "\<exists>pre post. s = pre @ py_strip s @ post \<and> list_all py_isspace pre \<and> list_all py_isspace post"
proof -
  define t where "t = dropWhile py_isspace s"
  have a: "s = takeWhile py_isspace s @ t"
    by (simp add: t_def)
  have c: "t = rev (dropWhile py_isspace (rev t)) @ rev (takeWhile py_isspace (rev t))"
    by (rule rev_take_drop)
  have d: "py_strip s = rev (dropWhile py_isspace (rev t))"
    by (simp add: py_strip_def py_rstrip_def py_lstrip_def t_def)
  have e: "list_all py_isspace (takeWhile py_isspace s)"
    by (rule list_all_takeWhile)
  have f: "list_all py_isspace (rev (takeWhile py_isspace (rev t)))"
    using list_all_takeWhile [of py_isspace "rev t"] by (simp add: list_all_iff)
  have "s = takeWhile py_isspace s @ py_strip s @ rev (takeWhile py_isspace (rev t))"
    using a c d by simp
  with e f show ?thesis by blast
qed

lemma py_strip_ends:
  "py_strip s \<noteq> [] \<Longrightarrow> \<not> py_isspace (hd (py_strip s)) \<and> \<not> py_isspace (last (py_strip s))"
proof -
  assume ne: "py_strip s \<noteq> []"
  define t where "t = dropWhile py_isspace s"
  define u where "u = dropWhile py_isspace (rev t)"
  have d: "py_strip s = rev u"
    by (simp add: py_strip_def py_rstrip_def py_lstrip_def t_def u_def)
  from ne d have une: "u \<noteq> []" by simp
  have hu: "\<not> py_isspace (hd u)"
    using une unfolding u_def by (rule hd_dropWhile)
  have lst: "\<not> py_isspace (last (rev u))"
    using hu une by (simp add: last_rev)
  have tne: "t \<noteq> []" using une u_def by auto
  have ht: "\<not> py_isspace (hd t)"
    using tne unfolding t_def by (rule hd_dropWhile)
  have "t = rev u @ rev (takeWhile py_isspace (rev t))"
    unfolding u_def by (rule rev_take_drop)
  then have "hd t = hd (rev u)"
    using une by (metis hd_append2 rev_is_Nil_conv)
  with ht lst d show ?thesis by simp
qed

lemma py_strip_fixed:
  "s \<noteq> [] \<Longrightarrow> \<not> py_isspace (hd s) \<Longrightarrow> \<not> py_isspace (last s) \<Longrightarrow> py_strip s = s"
proof -
  assume ne: "s \<noteq> []" and h: "\<not> py_isspace (hd s)" and l: "\<not> py_isspace (last s)"
  have a: "dropWhile py_isspace s = s"
    using ne h by (rule dropWhile_keep)
  have "rev s \<noteq> []" using ne by simp
  moreover have "\<not> py_isspace (hd (rev s))" using ne l by (simp add: hd_rev)
  ultimately have b: "dropWhile py_isspace (rev s) = rev s"
    by (rule dropWhile_keep)
  show ?thesis
    by (simp add: py_strip_def py_rstrip_def py_lstrip_def a b)
qed

lemma hex_digit_not_space: "is_hex_digit c \<Longrightarrow> \<not> py_isspace c"
  unfolding is_hex_digit_def py_isspace_def by arith

lemma list_all_hex_iff:
  "list_all (\<lambda>c. py_lower c \<in> valid_hex_chars) s \<longleftrightarrow> list_all is_hex_digit s"
  by (simp add: lower_in_valid_hex_chars)

section \<open>Validation after decryption\<close>

text \<open>
  Claim C6. When the key decrypts the ciphertext and the plaintext is well-formed UTF-8,
  \<open>decrypt_seed_from_bytes\<close> works on the decoded text with its surrounding whitespace
  removed: the text is that trimmed string between two runs of whitespace, and the trimmed
  string neither starts nor ends with whitespace. A trimmed length other than 64 raises the
  \<open>ValueError\<close> that reports the length; a trimmed string of length 64 with a character
  that is not a hexadecimal digit (either case) raises the \<open>ValueError\<close> that reports
  non-hex characters; otherwise the trimmed string itself is returned.
\<close>

theorem decrypt_seed_format_validation:
  assumes "private_key ciphertext = Some plaintext"
    and "utf8_decode plaintext = Some decoded"
  shows "(\<exists>pre post. decoded = pre @ py_strip decoded @ post
            \<and> list_all py_isspace pre \<and> list_all py_isspace post)
    \<and> (py_strip decoded \<noteq> [] \<longrightarrow>
          \<not> py_isspace (hd (py_strip decoded)) \<and> \<not> py_isspace (last (py_strip decoded)))
    \<and> decrypt_seed_from_bytes ciphertext private_key =
       (if length (py_strip decoded) \<noteq> 64
        then Inl (ValueError (''Invalid seed length: expected 64, got ''
                    @ py_str_nat (length (py_strip decoded))))
        else if \<exists>c \<in> set (py_strip decoded). \<not> is_hex_digit c
        then Inl (ValueError ''Seed contains non-hex characters'')
        else Inr (py_strip decoded))"
proof -
  have "decrypt_seed_from_bytes ciphertext private_key =
       (if length (py_strip decoded) \<noteq> 64
        then Inl (ValueError (''Invalid seed length: expected 64, got ''
                    @ py_str_nat (length (py_strip decoded))))
        else if \<exists>c \<in> set (py_strip decoded). \<not> is_hex_digit c
        then Inl (ValueError ''Seed contains non-hex characters'')
        else Inr (py_strip decoded))"
    using assms
    by (simp add: decrypt_seed_from_bytes_def Let_def list_all_hex_iff list_all_iff)
  then show ?thesis
    using py_strip_decompose [of decoded] py_strip_ends [of decoded] by blast
qed

lemma utf8_decode_a64: "utf8_decode (replicate 64 97 @ [10]) = Some (replicate 64 97 @ [10])"
  by code_simp

lemma py_strip_a64: "py_strip (replicate 64 97 @ [10]) = replicate 64 97"
  by code_simp

lemma is_hex_a64: "list_all is_hex_digit (replicate 64 97)"
  by code_simp

theorem decrypt_seed_format_validation_witness:
  "decrypt_seed_from_bytes [1, 2, 3] (const_key (Some (replicate 64 97 @ [10])))
     = Inr (replicate 64 97)"
  using decrypt_seed_format_validation [of "const_key (Some (replicate 64 97 @ [10]))"
      "[1, 2, 3]" "replicate 64 97 @ [10]" "replicate 64 97 @ [10]"] is_hex_a64
  by (simp add: const_key_def utf8_decode_a64 py_strip_a64 list_all_iff)

section \<open>Reading the seed back\<close>

lemma py_strip_z64: "py_strip (replicate 64 122 @ [10]) = replicate 64 122"
  by code_simp

lemma not_invariant_z64: "\<not> seed_invariant (replicate 64 122)"
  by code_simp

lemma universal_newlines_id: "13 \<notin> set s \<Longrightarrow> universal_newlines s = s"
  by (induction s rule: universal_newlines.induct) auto

lemma universal_newlines_z64:
  "universal_newlines (replicate 64 122 @ [10]) = replicate 64 122 @ [10]"
  by (rule universal_newlines_id) simp

lemma read_seed_checks:
  "(\<not> path_exists fs path \<longrightarrow> read_seed path fs = Inl (FileNotFoundError ''Seed not found''))
   \<and> (files fs path = Some content \<and> length (py_strip (universal_newlines content)) \<noteq> 64 \<longrightarrow>
        read_seed path fs = Inl (ValueError ''Stored seed invalid length''))
   \<and> (files fs path = Some content \<and> length (py_strip (universal_newlines content)) = 64 \<longrightarrow>
        read_seed path fs = Inr (py_strip (universal_newlines content)))"
  by (simp add: read_seed_def path_exists_def)

text \<open>
  Claim C1 at a stored file of 64 letters \<open>z\<close> and a newline: the content breaks the
  Seed invariant (no \<open>z\<close> is a hexadecimal digit), and \<open>read_seed\<close> returns the 64
  letters as the seed. Only the length is checked when the seed is read back.
\<close>

theorem read_seed_returns_non_hex:
  "\<not> seed_invariant (replicate 64 122)
   \<and> read_seed (str_of ''/data/seed.txt'') (fs_with_seed (replicate 64 122 @ [10]))
       = Inr (replicate 64 122)"
  using not_invariant_z64
  by (simp add: read_seed_def path_exists_def fs_with_seed_def universal_newlines_z64
      py_strip_z64)

section \<open>Failures of the provisioning endpoint\<close>

lemma b64decode_QUJD: "b64decode (str_of ''QUJD'') = Inr [65, 66, 67]"
  by (simp add: str_of_def b64decode_def b64_value_def)

lemma QUJD_not_empty: "str_of ''QUJD'' \<noteq> []"
  by (simp add: str_of_def)

lemma b64decode_empty: "b64decode [] = Inr []"
  by (simp add: b64decode_def)

text \<open>
  Claim C5 as stated fails at the empty input. The empty string is valid base64 (it decodes
  to no bytes), and a key that decrypts nothing does not decrypt it; yet the endpoint
  answers \<open>400 Missing encrypted_seed\<close>, not \<open>500 Decryption failed\<close>, since the check
  for an empty \<open>encrypted_seed\<close> comes before the decoding and the decryption.
\<close>

theorem bad_ciphertext_empty_counterexample:
  "b64decode [] = Inr []
   \<and> PRIVATE_KEY (example_server (Some (const_key None))) = Some (const_key None)
   \<and> const_key None [] = None
   \<and> decrypt_seed_endpoint (example_server (Some (const_key None))) []
        (fs_with_seed (replicate 64 97 @ [10]))
      = (HTTPException 400 (Message ''Missing encrypted_seed''),
         fs_with_seed (replicate 64 97 @ [10]))"
  by (simp add: b64decode_empty example_server_def const_key_def decrypt_seed_endpoint_def)

text \<open>
  Claim C5 as amended. A request whose \<open>encrypted_seed\<close> is not empty, with the key
  loaded, that decodes as base64 to a ciphertext the key does not decrypt, gets the one
  response \<open>500 Decryption failed\<close>, whatever the key, the ciphertext and the reason of the
  failure, and the file system (the stored seed with it) is as it was.
\<close>

theorem bad_ciphertext_decryption_failed:
  assumes "encrypted_seed \<noteq> []"
    and "PRIVATE_KEY srv = Some key"
    and "b64decode encrypted_seed = Inr ciphertext"
    and "key ciphertext = None"
  shows "decrypt_seed_endpoint srv encrypted_seed fs
           = (HTTPException 500 (Message ''Decryption failed''), fs)"
  using assms by (simp add: decrypt_seed_endpoint_def decrypt_seed_from_bytes_def)

theorem bad_ciphertext_decryption_failed_witness:
  "decrypt_seed_endpoint (example_server (Some (const_key None))) (str_of ''QUJD'')
       (fs_with_seed (replicate 64 97 @ [10]))
     = (HTTPException 500 (Message ''Decryption failed''), fs_with_seed (replicate 64 97 @ [10]))"
  using bad_ciphertext_decryption_failed [of "str_of ''QUJD''"
      "example_server (Some (const_key None))" "const_key None" "[65, 66, 67]"
      "fs_with_seed (replicate 64 97 @ [10])"]
  by (simp add: b64decode_QUJD QUJD_not_empty example_server_def const_key_def)

text \<open>
  Claim C10 as stated fails: with a key whose plaintext is the single byte \<open>0xFF\<close>, which
  is not UTF-8, the endpoint answers 400 with the text of the decoding error, not 500.
\<close>

theorem non_utf8_plaintext_counterexample:
  "utf8_decode [255] = None
   \<and> decrypt_seed_endpoint (example_server (Some (const_key (Some [255])))) (str_of ''QUJD'')
        (fs_with_seed (replicate 64 97 @ [10]))
      = (HTTPException 400 (TextOf UnicodeDecodeError), fs_with_seed (replicate 64 97 @ [10]))"
  by (simp add: decrypt_seed_endpoint_def decrypt_seed_from_bytes_def b64decode_QUJD
      QUJD_not_empty example_server_def const_key_def)

text \<open>
  Claim C10 as amended. When the key decrypts the ciphertext to bytes that are not
  well-formed UTF-8, the decoding raises \<open>UnicodeDecodeError\<close>, a \<open>ValueError\<close>: the
  endpoint answers through its bad-request branch, 400 with the text of that error, and
  the file system (the stored seed with it) is as it was.
\<close>

theorem non_utf8_plaintext_bad_request:
  assumes "encrypted_seed \<noteq> []"
    and "PRIVATE_KEY srv = Some key"
    and "b64decode encrypted_seed = Inr ciphertext"
    and "key ciphertext = Some plaintext"
    and "utf8_decode plaintext = None"
  shows "decrypt_seed_endpoint srv encrypted_seed fs
           = (HTTPException 400 (TextOf UnicodeDecodeError), fs)"
  using assms by (simp add: decrypt_seed_endpoint_def decrypt_seed_from_bytes_def)

theorem non_utf8_plaintext_bad_request_witness:
  "decrypt_seed_endpoint (example_server (Some (const_key (Some [195, 40])))) (str_of ''QUJD'')
       (fs_with_seed (replicate 64 97 @ [10]))
     = (HTTPException 400 (TextOf UnicodeDecodeError), fs_with_seed (replicate 64 97 @ [10]))"
  using non_utf8_plaintext_bad_request [of "str_of ''QUJD''"
      "example_server (Some (const_key (Some [195, 40])))" "const_key (Some [195, 40])"
      "[65, 66, 67]" "[195, 40]" "fs_with_seed (replicate 64 97 @ [10])"]
  by (simp add: b64decode_QUJD QUJD_not_empty example_server_def const_key_def utf8_cont_def)

section \<open>Atomic persistence and the round trip through the store\<close>

lemma run_ops_keeps:
  "\<forall>f \<in> set ops. keeps p f \<Longrightarrow> files (snd (run_ops ops fs)) p = files fs p"
proof (induction ops arbitrary: fs)
  case Nil
  then show ?case by simp
next
  case (Cons f ops)
  show ?case
  proof (cases "f fs")
    case (Inl e)
    then show ?thesis by simp
  next
    case (Inr fs1)
    have "files fs1 p = files fs p"
      using Cons.prems Inr by (simp add: keeps_def)
    moreover have "files (snd (run_ops ops fs1)) p = files fs1 p"
      using Cons.IH Cons.prems by simp
    ultimately show ?thesis using Inr by simp
  qed
qed

lemma run_ops_append:
  "run_ops (xs @ ys) fs =
     (case run_ops xs fs of (Some e, fs') \<Rightarrow> (Some e, fs') | (None, fs') \<Rightarrow> run_ops ys fs')"
  by (induction xs arbitrary: fs) (simp_all split: sum.splits)

lemma tmp_path_neq: "tmp_path_of path \<noteq> path"
  by (simp add: tmp_path_of_def str_of_def)

lemma keeps_makedirs: "keeps p (makedirs d)"
  by (auto simp: keeps_def makedirs_def split: if_splits)

lemma keeps_open_w: "q \<noteq> p \<Longrightarrow> keeps p (open_w q)"
  by (auto simp: keeps_def open_w_def split: if_splits)

lemma keeps_put_char: "q \<noteq> p \<Longrightarrow> keeps p (put_char q c)"
  by (auto simp: keeps_def put_char_def split: option.splits)

lemma save_ops_split:
  "save_ops seed_hex path = save_prefix seed_hex path @ [os_replace (tmp_path_of path) path]"
  by (simp add: save_ops_def save_prefix_def)

lemma save_prefix_keeps: "\<forall>f \<in> set (save_prefix seed_hex path). keeps path f"
  using tmp_path_neq [of path]
  by (auto simp: save_prefix_def keeps_makedirs keeps_open_w keeps_put_char)

lemma take_save_ops:
  "k < length (save_ops seed_hex path) \<Longrightarrow>
     take k (save_ops seed_hex path) = take k (save_prefix seed_hex path)"
  by (simp add: save_ops_split)

lemma interrupted_keeps:
  assumes "k < length (save_ops seed_hex path)"
  shows "files (snd (save_interrupted k seed_hex path fs)) path = files fs path"
proof -
  have "\<forall>f \<in> set (take k (save_prefix seed_hex path)). keeps path f"
    using save_prefix_keeps [of seed_hex path] by (meson in_set_takeD)
  then show ?thesis
    unfolding save_interrupted_def take_save_ops [OF assms] by (rule run_ops_keeps)
qed

lemma run_put_chars:
  "files fs p = Some old \<Longrightarrow>
     fst (run_ops (map (put_char p) cs) fs) = None
     \<and> files (snd (run_ops (map (put_char p) cs) fs)) p = Some (old @ cs)"
proof (induction cs arbitrary: fs old)
  case Nil
  then show ?case by simp
next
  case (Cons c cs)
  define fs1 where "fs1 = fs\<lparr>files := (files fs)(p \<mapsto> old @ [c])\<rparr>"
  have a: "put_char p c fs = Inr fs1"
    using Cons.prems by (simp add: put_char_def fs1_def)
  have "files fs1 p = Some (old @ [c])"
    by (simp add: fs1_def)
  from Cons.IH [OF this] a show ?case by simp
qed

lemma run_save_prefix:
  "fst (run_ops (save_prefix seed_hex path) fs) = None \<Longrightarrow>
     files (snd (run_ops (save_prefix seed_hex path) fs)) (tmp_path_of path) = Some (save_data seed_hex)"
proof -
  assume ok: "fst (run_ops (save_prefix seed_hex path) fs) = None"
  show ?thesis
  proof (cases "makedirs (dirname path) fs")
    case (Inl e)
    with ok show ?thesis by (simp add: save_prefix_def)
  next
    case (Inr fs1)
    show ?thesis
    proof (cases "open_w (tmp_path_of path) fs1")
      case (Inl e)
      with ok Inr show ?thesis by (simp add: save_prefix_def)
    next
      case fs2: (Inr fs2)
      have "files fs2 (tmp_path_of path) = Some []"
        using fs2 by (auto simp: open_w_def split: if_splits)
      from run_put_chars [OF this, of "save_data seed_hex"]
      show ?thesis using Inr fs2 by (simp add: save_prefix_def)
    qed
  qed
qed

lemma save_success_content:
  assumes "fst (save_seed_atomic seed_hex path fs) = None"
  shows "files (snd (save_seed_atomic seed_hex path fs)) path = Some (save_data seed_hex)
    \<and> files (snd (save_seed_atomic seed_hex path fs)) (tmp_path_of path) = None"
proof -
  obtain r fs1 where p: "run_ops (save_prefix seed_hex path) fs = (r, fs1)"
    by (cases "run_ops (save_prefix seed_hex path) fs")
  have r: "r = None"
    using assms p by (cases r) (simp_all add: save_seed_atomic_def save_ops_split run_ops_append)
  have tmp: "files fs1 (tmp_path_of path) = Some (save_data seed_hex)"
    using run_save_prefix [of seed_hex path fs] p r by simp
  show ?thesis
    using assms p r tmp tmp_path_neq [of path]
    by (auto simp: save_seed_atomic_def save_ops_split run_ops_append os_replace_def
        split: if_splits)
qed

lemma save_failure_keeps:
  assumes "fst (save_seed_atomic seed_hex path fs) \<noteq> None"
  shows "files (snd (save_seed_atomic seed_hex path fs)) path = files fs path"
proof -
  obtain r fs1 where p: "run_ops (save_prefix seed_hex path) fs = (r, fs1)"
    by (cases "run_ops (save_prefix seed_hex path) fs")
  have k: "files fs1 path = files fs path"
    using run_ops_keeps [OF save_prefix_keeps, of seed_hex path fs] p by simp
  show ?thesis
    using assms p k
    by (cases r) (auto simp: save_seed_atomic_def save_ops_split run_ops_append os_replace_def
        split: if_splits option.splits)
qed

lemma dirname_tmp: "dirname (tmp_path_of path) = dirname path"
proof -
  have "dropWhile (\<lambda>c. c \<noteq> 47) (rev (path @ str_of ''.tmp'')) = dropWhile (\<lambda>c. c \<noteq> 47) (rev path)"
    by (simp add: str_of_def)
  then show ?thesis by (simp add: dirname_def tmp_path_of_def)
qed

lemma py_strip_seed: "seed_invariant s \<Longrightarrow> py_strip s = s \<and> py_strip (s @ [10]) = s"
proof -
  assume inv: "seed_invariant s"
  then have ne: "s \<noteq> []" and hex: "list_all is_hex_digit s"
    by (auto simp: seed_invariant_def)
  have h: "\<not> py_isspace (hd s)"
    using ne hex by (cases s) (auto simp: hex_digit_not_space)
  have "last s \<in> set s" using ne by simp
  then have l: "\<not> py_isspace (last s)"
    using hex by (auto simp: list_all_iff hex_digit_not_space)
  have a: "py_strip s = s" using ne h l by (rule py_strip_fixed)
  have "dropWhile py_isspace (s @ [10]) = s @ [10]"
    using ne h by (cases s) simp_all
  moreover have "dropWhile py_isspace (10 # rev s) = rev s"
    using dropWhile_keep [of "rev s" py_isspace] ne l
    by (simp add: py_isspace_def hd_rev)
  ultimately have "py_strip (s @ [10]) = s"
    by (simp add: py_strip_def py_lstrip_def py_rstrip_def)
  with a show ?thesis by simp
qed

lemma read_after_save:
  assumes "seed_invariant s"
    and "save_seed_atomic s path fs = (None, fs')"
  shows "read_seed path fs' = Inr s"
proof -
  have "files fs' path = Some (save_data s)"
    using save_success_content [of s path fs] assms(2) by simp
  moreover have "save_data s = s @ [10]" and "py_strip (s @ [10]) = s"
    using py_strip_seed [OF assms(1)] by (simp_all add: save_data_def)
  moreover have "13 \<notin> set (s @ [10])"
    using assms(1) by (auto simp: seed_invariant_def list_all_iff is_hex_digit_def)
  then have "universal_newlines (s @ [10]) = s @ [10]"
    by (rule universal_newlines_id)
  moreover have "length s = 64" using assms(1) by (simp add: seed_invariant_def)
  ultimately show ?thesis
    by (simp add: read_seed_def path_exists_def)
qed

lemma run_prefix_ok:
  assumes "dirname path \<noteq> [] \<and> dirname path \<in> dirs fs" and "tmp_path_of path \<notin> dirs fs"
  shows "fst (run_ops (save_prefix seed_hex path) fs) = None
    \<and> dirs (snd (run_ops (save_prefix seed_hex path) fs)) = dirs fs"
proof -
  define fs2 where "fs2 = fs\<lparr>files := (files fs)(tmp_path_of path \<mapsto> [])\<rparr>"
  have a: "makedirs (dirname path) fs = Inr fs"
    using assms(1) by (auto simp: makedirs_def)
  have b: "open_w (tmp_path_of path) fs = Inr fs2"
    using assms(2) by (simp add: open_w_def fs2_def)
  have c: "files fs2 (tmp_path_of path) = Some []"
    by (simp add: fs2_def)
  have d: "\<forall>f \<in> set (map (put_char (tmp_path_of path)) (save_data seed_hex)).
            \<forall>x y. f x = Inr y \<longrightarrow> dirs y = dirs x"
    by (auto simp: put_char_def split: option.splits)
  have e: "\<And>ops x. \<forall>f \<in> set ops. \<forall>x y. f x = Inr y \<longrightarrow> dirs y = dirs x
            \<Longrightarrow> dirs (snd (run_ops ops x)) = dirs x"
  proof -
    fix ops :: "(filesystem \<Rightarrow> exn + filesystem) list" and x
    assume "\<forall>f \<in> set ops. \<forall>x y. f x = Inr y \<longrightarrow> dirs y = dirs x"
    then show "dirs (snd (run_ops ops x)) = dirs x"
    proof (induction ops arbitrary: x)
      case Nil
      then show ?case by simp
    next
      case (Cons f ops)
      then show ?case by (cases "f x") auto
    qed
  qed
  have "dirs (snd (run_ops (map (put_char (tmp_path_of path)) (save_data seed_hex)) fs2)) = dirs fs2"
    using e [OF d] .
  then show ?thesis
    using a b run_put_chars [OF c, of "save_data seed_hex"]
    by (simp add: save_prefix_def fs2_def)
qed

lemma save_succeeds:
  assumes "dirname path \<noteq> [] \<and> dirname path \<in> dirs fs" and "tmp_path_of path \<notin> dirs fs" and "path \<notin> dirs fs"
  shows "fst (save_seed_atomic seed_hex path fs) = None"
proof -
  obtain r fs1 where p: "run_ops (save_prefix seed_hex path) fs = (r, fs1)"
    by (cases "run_ops (save_prefix seed_hex path) fs")
  have r: "r = None" and d: "dirs fs1 = dirs fs"
    using run_prefix_ok [OF assms(1,2), of seed_hex] p by simp_all
  have "files fs1 (tmp_path_of path) = Some (save_data seed_hex)"
    using run_save_prefix [of seed_hex path fs] p r by simp
  then show ?thesis
    using p r d assms(3)
    by (simp add: save_seed_atomic_def save_ops_split run_ops_append os_replace_def)
qed

lemma dirname_example: "dirname (str_of ''/data/seed.txt'') = str_of ''/data''"
  by (simp add: dirname_def str_of_def)

lemma seed_invariant_a64: "seed_invariant (replicate 64 97)"
  by code_simp

lemma example_dirs:
  "dirname (str_of ''/data/seed.txt'') \<noteq> []
   \<and> dirname (str_of ''/data/seed.txt'') \<in> dirs (fs_with_seed c)
   \<and> tmp_path_of (str_of ''/data/seed.txt'') \<notin> dirs (fs_with_seed c)
   \<and> str_of ''/data/seed.txt'' \<notin> dirs (fs_with_seed c)"
  by (simp add: dirname_example fs_with_seed_def) (simp add: str_of_def tmp_path_of_def)

lemma save_example_ok:
  "fst (save_seed_atomic s (str_of ''/data/seed.txt'') (fs_with_seed c)) = None"
  using example_dirs [of c] by (intro save_succeeds) simp_all

lemma length_save_ops: "length (save_ops s path) = length (py_strip s) + 4"
  by (simp add: save_ops_def save_data_def)

text \<open>
  Claim C2. \<open>save_seed_atomic\<close> is the effects of \<open>save_prefix\<close> followed by one
  \<open>os.replace\<close> of the temporary file onto the seed file; the temporary file lies in the
  directory of the seed file and, when the effects before the replace went through, holds
  the complete text. A save interrupted after any number of effects short of all of them
  leaves the seed file as it was before the save (absent, or its previous content); so does
  a save that fails. A save that completes leaves the complete text in the seed file.
\<close>

theorem save_seed_atomic_interrupted:
  "(\<forall>k. k < length (save_ops seed_hex path) \<longrightarrow>
       files (snd (save_interrupted k seed_hex path fs)) path = files fs path)
   \<and> save_interrupted (length (save_ops seed_hex path)) seed_hex path fs
       = save_seed_atomic seed_hex path fs
   \<and> save_ops seed_hex path = save_prefix seed_hex path @ [os_replace (tmp_path_of path) path]
   \<and> dirname (tmp_path_of path) = dirname path
   \<and> (fst (run_ops (save_prefix seed_hex path) fs) = None \<longrightarrow>
        files (snd (run_ops (save_prefix seed_hex path) fs)) (tmp_path_of path)
          = Some (save_data seed_hex))
   \<and> (fst (save_seed_atomic seed_hex path fs) = None \<longrightarrow>
        files (snd (save_seed_atomic seed_hex path fs)) path = Some (save_data seed_hex))
   \<and> (fst (save_seed_atomic seed_hex path fs) \<noteq> None \<longrightarrow>
        files (snd (save_seed_atomic seed_hex path fs)) path = files fs path)"
  using interrupted_keeps [of _ seed_hex path fs] save_ops_split [of seed_hex path]
    dirname_tmp [of path] run_save_prefix [of seed_hex path fs]
    save_success_content [of seed_hex path fs] save_failure_keeps [of seed_hex path fs]
  by (simp add: save_interrupted_def save_seed_atomic_def)

theorem save_seed_atomic_interrupted_witness:
  "files (snd (save_interrupted 30 (replicate 64 97) (str_of ''/data/seed.txt'')
                 (fs_with_seed (replicate 64 122 @ [10])))) (str_of ''/data/seed.txt'')
     = Some (replicate 64 122 @ [10])
   \<and> files (snd (save_seed_atomic (replicate 64 97) (str_of ''/data/seed.txt'')
                 (fs_with_seed (replicate 64 122 @ [10])))) (str_of ''/data/seed.txt'')
     = Some (replicate 64 97 @ [10])"
proof -
  let ?p = "str_of ''/data/seed.txt''"
  let ?fs = "fs_with_seed (replicate 64 122 @ [10])"
  have s: "py_strip (replicate 64 97) = replicate 64 97"
    using py_strip_seed [OF seed_invariant_a64] by simp
  have l: "(30::nat) < length (save_ops (replicate 64 97) ?p)"
    by (simp add: length_save_ops s)
  have ok: "fst (save_seed_atomic (replicate 64 97) ?p ?fs) = None"
    by (rule save_example_ok)
  have old: "files ?fs ?p = Some (replicate 64 122 @ [10])"
    by (simp add: fs_with_seed_def)
  show ?thesis
    using save_seed_atomic_interrupted [of "replicate 64 97" ?p ?fs] l ok old
    by (simp add: save_data_def s)
qed

text \<open>
  Claim C9. For a string \<open>s\<close> that satisfies the Seed invariant, whenever
  \<open>save_seed_atomic\<close> of \<open>s\<close> completes, \<open>read_seed\<close> at the same path on the resulting
  file system returns exactly \<open>s\<close>: the newline written after it is stripped. The save
  completes when the directory of the path exists and neither the path nor the temporary
  path names a directory.
\<close>

theorem store_round_trip:
  assumes "seed_invariant s"
  shows "(\<forall>fs'. save_seed_atomic s path fs = (None, fs') \<longrightarrow> read_seed path fs' = Inr s)
    \<and> (dirname path \<noteq> [] \<and> dirname path \<in> dirs fs \<and> tmp_path_of path \<notin> dirs fs
           \<and> path \<notin> dirs fs
         \<longrightarrow> fst (save_seed_atomic s path fs) = None)"
  using read_after_save [OF assms] save_succeeds by blast

theorem store_round_trip_witness:
  "read_seed (str_of ''/data/seed.txt'')
     (snd (save_seed_atomic (replicate 64 97) (str_of ''/data/seed.txt'')
            (fs_with_seed (replicate 64 122 @ [10]))))
   = Inr (replicate 64 97)"
proof -
  let ?p = "str_of ''/data/seed.txt''"
  let ?fs = "fs_with_seed (replicate 64 122 @ [10])"
  let ?r = "save_seed_atomic (replicate 64 97) ?p ?fs"
  have "?r = (None, snd ?r)"
    using save_example_ok [of "replicate 64 97" "replicate 64 122 @ [10]"]
    by (metis prod.collapse)
  then show ?thesis
    using store_round_trip [OF seed_invariant_a64, of ?p ?fs] by blast
qed

section \<open>Evaluating the digest\<close>

lemma replicate_num: "replicate (numeral k) x = x # replicate (pred_numeral k) x"
  by (simp add: numeral_eq_Suc)

lemma fromhex_zero: "fromhex zero_seed = Some [0, 0, 0, 0, 0, 0, 0, 0, 0, 0, 0, 0, 0, 0, 0, 0, 0, 0, 0, 0, 0, 0, 0, 0, 0, 0, 0, 0, 0, 0, 0, 0]"
  by (simp add: zero_seed_def str_of_def hex_value_def is_ascii_space_def)

lemma b32_zero: "b32encode [0, 0, 0, 0, 0, 0, 0, 0, 0, 0, 0, 0, 0, 0, 0, 0, 0, 0, 0, 0, 0, 0, 0, 0, 0, 0, 0, 0, 0, 0, 0, 0] = [65, 65, 65, 65, 65, 65, 65, 65, 65, 65, 65, 65, 65, 65, 65, 65, 65, 65, 65, 65, 65, 65, 65, 65, 65, 65, 65, 65, 65, 65, 65, 65, 65, 65, 65, 65, 65, 65, 65, 65, 65, 65, 65, 65, 65, 65, 65, 65, 65, 65, 65, 65] @ [61, 61, 61, 61]"
  by (simp add: b32encode_def b32_chunks.simps b32_quantum_def from_bytes_def b32_alphabet_def
      str_of_def b32_npad_def replicate_num)

lemma hex_zero: "hex_to_base32 zero_seed = Inr [65, 65, 65, 65, 65, 65, 65, 65, 65, 65, 65, 65, 65, 65, 65, 65, 65, 65, 65, 65, 65, 65, 65, 65, 65, 65, 65, 65, 65, 65, 65, 65, 65, 65, 65, 65, 65, 65, 65, 65, 65, 65, 65, 65, 65, 65, 65, 65, 65, 65, 65, 65]"
  by (simp add: hex_to_base32_def fromhex_zero b32_zero py_strip_def py_lstrip_def py_rstrip_def
      py_isspace_def)

lemma bs_zero: "byte_secret [65, 65, 65, 65, 65, 65, 65, 65, 65, 65, 65, 65, 65, 65, 65, 65, 65, 65, 65, 65, 65, 65, 65, 65, 65, 65, 65, 65, 65, 65, 65, 65, 65, 65, 65, 65, 65, 65, 65, 65, 65, 65, 65, 65, 65, 65, 65, 65, 65, 65, 65, 65] = Inr [0, 0, 0, 0, 0, 0, 0, 0, 0, 0, 0, 0, 0, 0, 0, 0, 0, 0, 0, 0, 0, 0, 0, 0, 0, 0, 0, 0, 0, 0, 0, 0]"
  by (simp add: byte_secret_def b32decode_def b32_quanta.simps b32_rev_def ascii_upper_def
      to_bytes5_def replicate_num)

lemma sha1_blocks_short: "length m < 64 \<Longrightarrow> sha1_blocks h m = h"
  by (simp add: sha1_blocks.simps)

lemma sha1_blocks_block:
  "length b = 64 \<Longrightarrow> sha1_blocks h (b @ m) = sha1_blocks (sha1_compress h b) m"
  by (subst sha1_blocks.simps) simp

lemma sha1_two_blocks:
  assumes "length b = 64" and "length m \<le> 55"
  shows "sha1 (b @ m) =
    state_bytes (sha1_compress (sha1_compress sha1_init b)
      (m @ [128] @ replicate (55 - length m) 0
         @ map (\<lambda>k. ((8 * (64 + length m)) div 256 ^ k) mod 256) [7, 6, 5, 4, 3, 2, 1, 0]))"
proof -
  let ?tail = "m @ [128] @ replicate (55 - length m) 0
         @ map (\<lambda>k. ((8 * (64 + length m)) div 256 ^ k) mod 256) [7, 6, 5, 4, 3, 2, 1, 0]"
  have a: "(64 + length m) mod 64 = length m"
    using assms(2) by simp
  have "119 - length m = (55 - length m) + 64"
    using assms(2) by arith
  then have "(119 - length m) mod 64 = (55 - length m) mod 64"
    by (simp only: mod_add_self2)
  also have "\<dots> = 55 - length m"
    by (rule mod_less) arith
  finally have r0: "(119 - length m) mod 64 = 55 - length m" .
  have r2: "length m mod 64 = length m"
    using assms(2) by simp
  have p: "sha1_pad (b @ m) = b @ ?tail"
    using assms(1) by (simp add: sha1_pad_def r0 r2)
  have l: "length ?tail = 64"
    using assms(2) by simp
  have "sha1_blocks sha1_init (b @ ?tail) = sha1_blocks (sha1_compress sha1_init b) ?tail"
    using assms(1) by (rule sha1_blocks_block)
  also have "\<dots> = sha1_blocks (sha1_compress (sha1_compress sha1_init b) ?tail) []"
    using sha1_blocks_block [OF l, of _ "[]"] by simp
  also have "\<dots> = sha1_compress (sha1_compress sha1_init b) ?tail"
    by (simp add: sha1_blocks_short)
  finally show ?thesis
    by (simp add: sha1_def p)
qed

lemma length_state_bytes: "length (state_bytes s) = 20"
  by (cases s) (simp add: word_bytes_def)

lemma length_sha1: "length (sha1 m) = 20"
  by (simp add: sha1_def length_state_bytes)

lemma compress_ipad:
  "sha1_compress sha1_init [54, 54, 54, 54, 54, 54, 54, 54, 54, 54, 54, 54, 54, 54, 54, 54, 54, 54, 54, 54, 54, 54, 54, 54, 54, 54, 54, 54, 54, 54, 54, 54, 54, 54, 54, 54, 54, 54, 54, 54, 54, 54, 54, 54, 54, 54, 54, 54, 54, 54, 54, 54, 54, 54, 54, 54, 54, 54, 54, 54, 54, 54, 54, 54] = (3388456279, 1645991739, 3926911697, 1101373746, 1313814045)"
  by (simp add: sha1_init_def sha1_compress_def rotl32_def sha1_f_def sha1_k_def next_window_def sha1_rounds.simps)

lemma compress_opad:
  "sha1_compress sha1_init [92, 92, 92, 92, 92, 92, 92, 92, 92, 92, 92, 92, 92, 92, 92, 92, 92, 92, 92, 92, 92, 92, 92, 92, 92, 92, 92, 92, 92, 92, 92, 92, 92, 92, 92, 92, 92, 92, 92, 92, 92, 92, 92, 92, 92, 92, 92, 92, 92, 92, 92, 92, 92, 92, 92, 92, 92, 92, 92, 92, 92, 92, 92, 92] = (2542412964, 1893397715, 333561480, 947659313, 1951813997)"
  by (simp add: sha1_init_def sha1_compress_def rotl32_def sha1_f_def sha1_k_def next_window_def sha1_rounds.simps)

lemma hmac_zero_key:
  assumes "length msg \<le> 55"
  shows "hmac_sha1 [0::nat, 0, 0, 0, 0, 0, 0, 0, 0, 0, 0, 0, 0, 0, 0, 0, 0, 0, 0, 0, 0, 0, 0, 0, 0, 0, 0, 0, 0, 0, 0, 0] msg =
    state_bytes (sha1_compress (2542412964, 1893397715, 333561480, 947659313, 1951813997)
      (state_bytes (sha1_compress (3388456279, 1645991739, 3926911697, 1101373746, 1313814045)
          (msg @ [128] @ replicate (55 - length msg) 0
             @ map (\<lambda>k. ((8 * (64 + length msg)) div 256 ^ k) mod 256) [7, 6, 5, 4, 3, 2, 1, 0]))
       @ [128] @ replicate 35 0 @ [0, 0, 0, 0, 0, 0, 2, 160]))"
proof -
  have i: "map (\<lambda>b. b XOR 54) ([0::nat, 0, 0, 0, 0, 0, 0, 0, 0, 0, 0, 0, 0, 0, 0, 0, 0, 0, 0, 0, 0, 0, 0, 0, 0, 0, 0, 0, 0, 0, 0, 0] @ replicate (64 - length [0::nat, 0, 0, 0, 0, 0, 0, 0, 0, 0, 0, 0, 0, 0, 0, 0, 0, 0, 0, 0, 0, 0, 0, 0, 0, 0, 0, 0, 0, 0, 0, 0]) 0) = [54, 54, 54, 54, 54, 54, 54, 54, 54, 54, 54, 54, 54, 54, 54, 54, 54, 54, 54, 54, 54, 54, 54, 54, 54, 54, 54, 54, 54, 54, 54, 54, 54, 54, 54, 54, 54, 54, 54, 54, 54, 54, 54, 54, 54, 54, 54, 54, 54, 54, 54, 54, 54, 54, 54, 54, 54, 54, 54, 54, 54, 54, 54, 54]"
    by (simp add: replicate_num)
  have o: "map (\<lambda>b. b XOR 92) ([0::nat, 0, 0, 0, 0, 0, 0, 0, 0, 0, 0, 0, 0, 0, 0, 0, 0, 0, 0, 0, 0, 0, 0, 0, 0, 0, 0, 0, 0, 0, 0, 0] @ replicate (64 - length [0::nat, 0, 0, 0, 0, 0, 0, 0, 0, 0, 0, 0, 0, 0, 0, 0, 0, 0, 0, 0, 0, 0, 0, 0, 0, 0, 0, 0, 0, 0, 0, 0]) 0) = [92, 92, 92, 92, 92, 92, 92, 92, 92, 92, 92, 92, 92, 92, 92, 92, 92, 92, 92, 92, 92, 92, 92, 92, 92, 92, 92, 92, 92, 92, 92, 92, 92, 92, 92, 92, 92, 92, 92, 92, 92, 92, 92, 92, 92, 92, 92, 92, 92, 92, 92, 92, 92, 92, 92, 92, 92, 92, 92, 92, 92, 92, 92, 92]"
    by (simp add: replicate_num)
  have inner: "sha1 ([54, 54, 54, 54, 54, 54, 54, 54, 54, 54, 54, 54, 54, 54, 54, 54, 54, 54, 54, 54, 54, 54, 54, 54, 54, 54, 54, 54, 54, 54, 54, 54, 54, 54, 54, 54, 54, 54, 54, 54, 54, 54, 54, 54, 54, 54, 54, 54, 54, 54, 54, 54, 54, 54, 54, 54, 54, 54, 54, 54, 54, 54, 54, 54] @ msg) = state_bytes (sha1_compress (3388456279, 1645991739, 3926911697, 1101373746, 1313814045)
          (msg @ [128] @ replicate (55 - length msg) 0
             @ map (\<lambda>k. ((8 * (64 + length msg)) div 256 ^ k) mod 256) [7, 6, 5, 4, 3, 2, 1, 0]))"
    using sha1_two_blocks [of "[54, 54, 54, 54, 54, 54, 54, 54, 54, 54, 54, 54, 54, 54, 54, 54, 54, 54, 54, 54, 54, 54, 54, 54, 54, 54, 54, 54, 54, 54, 54, 54, 54, 54, 54, 54, 54, 54, 54, 54, 54, 54, 54, 54, 54, 54, 54, 54, 54, 54, 54, 54, 54, 54, 54, 54, 54, 54, 54, 54, 54, 54, 54, 54]" msg] assms by (simp add: compress_ipad)
  have outer: "sha1 ([92, 92, 92, 92, 92, 92, 92, 92, 92, 92, 92, 92, 92, 92, 92, 92, 92, 92, 92, 92, 92, 92, 92, 92, 92, 92, 92, 92, 92, 92, 92, 92, 92, 92, 92, 92, 92, 92, 92, 92, 92, 92, 92, 92, 92, 92, 92, 92, 92, 92, 92, 92, 92, 92, 92, 92, 92, 92, 92, 92, 92, 92, 92, 92] @ d) = state_bytes (sha1_compress (2542412964, 1893397715, 333561480, 947659313, 1951813997)
          (d @ [128] @ replicate 35 0 @ [0, 0, 0, 0, 0, 0, 2, 160]))" if "length d = 20" for d
    using sha1_two_blocks [of "[92, 92, 92, 92, 92, 92, 92, 92, 92, 92, 92, 92, 92, 92, 92, 92, 92, 92, 92, 92, 92, 92, 92, 92, 92, 92, 92, 92, 92, 92, 92, 92, 92, 92, 92, 92, 92, 92, 92, 92, 92, 92, 92, 92, 92, 92, 92, 92, 92, 92, 92, 92, 92, 92, 92, 92, 92, 92, 92, 92, 92, 92, 92, 92]" d] that by (simp add: compress_opad)
  have k: "\<not> length [0::nat, 0, 0, 0, 0, 0, 0, 0, 0, 0, 0, 0, 0, 0, 0, 0, 0, 0, 0, 0, 0, 0, 0, 0, 0, 0, 0, 0, 0, 0, 0, 0] > 64" by simp
  show ?thesis
    unfolding hmac_sha1_def Let_def
    by (simp only: k if_False i o inner outer [OF length_state_bytes])
qed

lemma compress_inner_before:
  "sha1_compress (3388456279, 1645991739, 3926911697, 1101373746, 1313814045) [0, 0, 0, 0, 3, 143, 79, 176, 128, 0, 0, 0, 0, 0, 0, 0, 0, 0, 0, 0, 0, 0, 0, 0, 0, 0, 0, 0, 0, 0, 0, 0, 0, 0, 0, 0, 0, 0, 0, 0, 0, 0, 0, 0, 0, 0, 0, 0, 0, 0, 0, 0, 0, 0, 0, 0, 0, 0, 0, 0, 0, 0, 2, 64] = (4146959035, 2123920282, 2854593558, 1773417560, 4240738358)"
  by (simp add: sha1_compress_def rotl32_def sha1_f_def sha1_k_def next_window_def sha1_rounds.simps)

lemma compress_outer_before:
  "sha1_compress (2542412964, 1893397715, 333561480, 947659313, 1951813997) [247, 45, 146, 187, 126, 152, 115, 154, 170, 37, 164, 22, 105, 180, 52, 88, 252, 196, 136, 54, 128, 0, 0, 0, 0, 0, 0, 0, 0, 0, 0, 0, 0, 0, 0, 0, 0, 0, 0, 0, 0, 0, 0, 0, 0, 0, 0, 0, 0, 0, 0, 0, 0, 0, 0, 0, 0, 0, 0, 0, 0, 0, 2, 160] = (3709624399, 3433560682, 1260012347, 1624228959, 994495115)"
  by (simp add: sha1_compress_def rotl32_def sha1_f_def sha1_k_def next_window_def sha1_rounds.simps)

lemma hmac_before:
  "hmac_sha1 [0, 0, 0, 0, 0, 0, 0, 0, 0, 0, 0, 0, 0, 0, 0, 0, 0, 0, 0, 0, 0, 0, 0, 0, 0, 0, 0, 0, 0, 0, 0, 0] [0, 0, 0, 0, 3, 143, 79, 176] = [221, 28, 96, 79, 204, 167, 250, 106, 75, 26, 67, 59, 96, 207, 196, 95, 59, 70, 202, 139]"
  by (simp add: hmac_zero_key compress_inner_before compress_outer_before word_bytes_def replicate_num)

lemma compress_inner_after:
  "sha1_compress (3388456279, 1645991739, 3926911697, 1101373746, 1313814045) [0, 0, 0, 0, 3, 143, 79, 179, 128, 0, 0, 0, 0, 0, 0, 0, 0, 0, 0, 0, 0, 0, 0, 0, 0, 0, 0, 0, 0, 0, 0, 0, 0, 0, 0, 0, 0, 0, 0, 0, 0, 0, 0, 0, 0, 0, 0, 0, 0, 0, 0, 0, 0, 0, 0, 0, 0, 0, 0, 0, 0, 0, 2, 64] = (2263477081, 3108385510, 3695481804, 1651273968, 3994832527)"
  by (simp add: sha1_compress_def rotl32_def sha1_f_def sha1_k_def next_window_def sha1_rounds.simps)

lemma compress_outer_after:
  "sha1_compress (2542412964, 1893397715, 333561480, 947659313, 1951813997) [134, 233, 235, 89, 185, 70, 50, 230, 220, 68, 147, 204, 98, 108, 112, 240, 238, 28, 78, 143, 128, 0, 0, 0, 0, 0, 0, 0, 0, 0, 0, 0, 0, 0, 0, 0, 0, 0, 0, 0, 0, 0, 0, 0, 0, 0, 0, 0, 0, 0, 0, 0, 0, 0, 0, 0, 0, 0, 0, 0, 0, 0, 2, 160] = (1239850471, 1604683734, 3700700782, 3558684036, 3901482316)"
  by (simp add: sha1_compress_def rotl32_def sha1_f_def sha1_k_def next_window_def sha1_rounds.simps)

lemma hmac_after:
  "hmac_sha1 [0, 0, 0, 0, 0, 0, 0, 0, 0, 0, 0, 0, 0, 0, 0, 0, 0, 0, 0, 0, 0, 0, 0, 0, 0, 0, 0, 0, 0, 0, 0, 0] [0, 0, 0, 0, 3, 143, 79, 179] = [73, 230, 157, 231, 95, 165, 135, 214, 220, 148, 54, 110, 212, 29, 53, 132, 232, 139, 229, 76]"
  by (simp add: hmac_zero_key compress_inner_after compress_outer_after word_bytes_def replicate_num)

lemma be_digits_before: "be_digits 59723696 = [3, 143, 79, 176]"
  by (simp add: be_digits.simps)

lemma be_digits_after: "be_digits 59723699 = [3, 143, 79, 179]"
  by (simp add: be_digits.simps)

lemma str_of_drop: "str_of (drop (length s - 6) s) = drop (length (str_of s) - 6) (str_of s)"
  by (simp add: str_of_def drop_map)

lemma str_200388: "str_of (py_str_nat 10000200388) = [49, 48, 48, 48, 48, 50, 48, 48, 51, 56, 56]"
  by (simp add: py_str_nat.simps str_of_def)

lemma code_200388: "str_of ''200388'' = [50, 48, 48, 51, 56, 56]"
  by (simp add: str_of_def)

lemma otp_before: "generate_otp [65, 65, 65, 65, 65, 65, 65, 65, 65, 65, 65, 65, 65, 65, 65, 65, 65, 65, 65, 65, 65, 65, 65, 65, 65, 65, 65, 65, 65, 65, 65, 65, 65, 65, 65, 65, 65, 65, 65, 65, 65, 65, 65, 65, 65, 65, 65, 65, 65, 65, 65, 65] 59723696 = Inr (str_of ''200388'')"
  by (simp add: generate_otp_def bs_zero int_to_bytestring_def be_digits_before hmac_before
      truncate_code_def str_of_drop str_200388 code_200388 replicate_num)

lemma otp_after: "generate_otp [65, 65, 65, 65, 65, 65, 65, 65, 65, 65, 65, 65, 65, 65, 65, 65, 65, 65, 65, 65, 65, 65, 65, 65, 65, 65, 65, 65, 65, 65, 65, 65, 65, 65, 65, 65, 65, 65, 65, 65, 65, 65, 65, 65, 65, 65, 65, 65, 65, 65, 65, 65] 59723699 = Inr (str_of ''200388'')"
  by (simp add: generate_otp_def bs_zero int_to_bytestring_def be_digits_after hmac_after
      truncate_code_def str_of_drop str_200388 code_200388 replicate_num)

lemma verify_collision:
  "verify_totp_from_hex nfkc zero_seed (str_of ''200388'') 1 1791710910 = Inr True"
proof -
  have t: "timecode 1791710910 = 59723697"
    by (simp add: timecode_def)
  have u: "[- 1..1] = - 1 # [0..(1::int)]"
    by (simp add: upto_rec1)
  have e: "strings_equal nfkc (str_of ''200388'') (str_of ''200388'') = Inr True"
    by (simp add: strings_equal_def normalize_NFKC_def code_200388 utf8_encode_char_def)
  show ?thesis
    by (simp add: verify_totp_from_hex_def hex_zero totp_verify_def t u otp_before e)
qed

section \<open>Test vectors\<close>

text \<open>
  The digest and the code generation agree with the published vectors: the SHA-1 digest of
  \<open>abc\<close> (FIPS 180), and the first HOTP value of RFC 4226, Appendix D: secret
  \<open>12345678901234567890\<close>, counter 0, code \<open>755224\<close>.
\<close>

lemma replicate_one: "replicate 1 x = [x]"
  by simp

lemma sha1_one_block:
  assumes "length m \<le> 55"
  shows "sha1 m =
    state_bytes (sha1_compress sha1_init
      (m @ [128] @ replicate (55 - length m) 0
         @ map (\<lambda>k. ((8 * length m) div 256 ^ k) mod 256) [7, 6, 5, 4, 3, 2, 1, 0]))"
proof -
  let ?blk = "m @ [128] @ replicate (55 - length m) 0
         @ map (\<lambda>k. ((8 * length m) div 256 ^ k) mod 256) [7, 6, 5, 4, 3, 2, 1, 0]"
  have "119 - length m = (55 - length m) + 64"
    using assms by arith
  then have "(119 - length m) mod 64 = (55 - length m) mod 64"
    by (simp only: mod_add_self2)
  also have "\<dots> = 55 - length m"
    by (rule mod_less) arith
  finally have r0: "(119 - length m) mod 64 = 55 - length m" .
  have r2: "length m mod 64 = length m"
    using assms by simp
  have p: "sha1_pad m = ?blk"
    by (simp add: sha1_pad_def r0 r2)
  have l: "length ?blk = 64"
    using assms by simp
  have "sha1_blocks sha1_init ?blk = sha1_blocks (sha1_compress sha1_init ?blk) []"
    using sha1_blocks_block [OF l, of _ "[]"] by simp
  also have "\<dots> = sha1_compress sha1_init ?blk"
    by (simp add: sha1_blocks_short)
  finally show ?thesis
    by (simp add: sha1_def p)
qed

lemma hmac_short_key:
  assumes "length key \<le> 64" and "length msg \<le> 55"
  shows "hmac_sha1 key msg =
    state_bytes (sha1_compress
      (sha1_compress sha1_init (map (\<lambda>b. b XOR 92) (key @ replicate (64 - length key) 0)))
      (state_bytes (sha1_compress
          (sha1_compress sha1_init (map (\<lambda>b. b XOR 54) (key @ replicate (64 - length key) 0)))
          (msg @ [128] @ replicate (55 - length msg) 0
             @ map (\<lambda>k. ((8 * (64 + length msg)) div 256 ^ k) mod 256) [7, 6, 5, 4, 3, 2, 1, 0]))
       @ [128] @ replicate 35 0 @ [0, 0, 0, 0, 0, 0, 2, 160]))"
proof -
  let ?i = "map (\<lambda>b. b XOR 54) (key @ replicate (64 - length key) 0)"
  let ?o = "map (\<lambda>b. b XOR 92) (key @ replicate (64 - length key) 0)"
  have li: "length ?i = 64" and lo: "length ?o = 64"
    using assms(1) by simp_all
  have inner: "sha1 (?i @ msg) = state_bytes (sha1_compress (sha1_compress sha1_init ?i)
          (msg @ [128] @ replicate (55 - length msg) 0
             @ map (\<lambda>k. ((8 * (64 + length msg)) div 256 ^ k) mod 256) [7, 6, 5, 4, 3, 2, 1, 0]))"
    using sha1_two_blocks [OF li assms(2)] .
  have outer: "sha1 (?o @ d) = state_bytes (sha1_compress (sha1_compress sha1_init ?o)
          (d @ [128] @ replicate 35 0 @ [0, 0, 0, 0, 0, 0, 2, 160]))" if "length d = 20" for d
    using sha1_two_blocks [OF lo, of d] that by simp
  have k: "\<not> length key > 64" using assms(1) by simp
  show ?thesis
    unfolding hmac_sha1_def Let_def
    by (simp only: k if_False inner outer [OF length_state_bytes])
qed

lemma compress_abc:
  "sha1_compress sha1_init [97, 98, 99, 128, 0, 0, 0, 0, 0, 0, 0, 0, 0, 0, 0, 0, 0, 0, 0, 0, 0, 0, 0, 0, 0, 0, 0, 0, 0, 0, 0, 0, 0, 0, 0, 0, 0, 0, 0, 0, 0, 0, 0, 0, 0, 0, 0, 0, 0, 0, 0, 0, 0, 0, 0, 0, 0, 0, 0, 0, 0, 0, 0, 24] = (2845392438, 1191608682, 3124634993, 2018558572, 2630932637)"
  by (simp add: sha1_init_def sha1_compress_def rotl32_def sha1_f_def sha1_k_def next_window_def sha1_rounds.simps)

lemma sha1_abc:
  "sha1 [97, 98, 99] = [169, 153, 62, 54, 71, 6, 129, 106, 186, 62, 37, 113, 120, 80, 194, 108, 156, 208, 216, 157]"
  using sha1_one_block [of "[97, 98, 99]"]
  by (simp add: compress_abc word_bytes_def replicate_num)

lemma compress_ipad_rfc:
  "sha1_compress sha1_init [7, 4, 5, 2, 3, 0, 1, 14, 15, 6, 7, 4, 5, 2, 3, 0, 1, 14, 15, 6, 54, 54, 54, 54, 54, 54, 54, 54, 54, 54, 54, 54, 54, 54, 54, 54, 54, 54, 54, 54, 54, 54, 54, 54, 54, 54, 54, 54, 54, 54, 54, 54, 54, 54, 54, 54, 54, 54, 54, 54, 54, 54, 54, 54] = (3418885260, 4120502956, 3183003698, 3667247555, 4167577637)"
  by (simp add: sha1_init_def sha1_compress_def rotl32_def sha1_f_def sha1_k_def next_window_def sha1_rounds.simps)

lemma compress_opad_rfc:
  "sha1_compress sha1_init [109, 110, 111, 104, 105, 106, 107, 100, 101, 108, 109, 110, 111, 104, 105, 106, 107, 100, 101, 108, 92, 92, 92, 92, 92, 92, 92, 92, 92, 92, 92, 92, 92, 92, 92, 92, 92, 92, 92, 92, 92, 92, 92, 92, 92, 92, 92, 92, 92, 92, 92, 92, 92, 92, 92, 92, 92, 92, 92, 92, 92, 92, 92, 92] = (2562571725, 1491106814, 2908544490, 985678603, 4262488101)"
  by (simp add: sha1_init_def sha1_compress_def rotl32_def sha1_f_def sha1_k_def next_window_def sha1_rounds.simps)

lemma compress_inner_rfc:
  "sha1_compress (3418885260, 4120502956, 3183003698, 3667247555, 4167577637) [0, 0, 0, 0, 0, 0, 0, 0, 128, 0, 0, 0, 0, 0, 0, 0, 0, 0, 0, 0, 0, 0, 0, 0, 0, 0, 0, 0, 0, 0, 0, 0, 0, 0, 0, 0, 0, 0, 0, 0, 0, 0, 0, 0, 0, 0, 0, 0, 0, 0, 0, 0, 0, 0, 0, 0, 0, 0, 0, 0, 0, 0, 2, 64] = (143776190, 163256007, 3362926067, 1759011664, 1719552414)"
  by (simp add: sha1_compress_def rotl32_def sha1_f_def sha1_k_def next_window_def sha1_rounds.simps)

lemma compress_outer_rfc:
  "sha1_compress (2562571725, 1491106814, 2908544490, 985678603, 4262488101) [8, 145, 217, 190, 9, 187, 22, 199, 200, 114, 45, 243, 104, 216, 99, 80, 102, 126, 73, 158, 128, 0, 0, 0, 0, 0, 0, 0, 0, 0, 0, 0, 0, 0, 0, 0, 0, 0, 0, 0, 0, 0, 0, 0, 0, 0, 0, 0, 0, 0, 0, 0, 0, 0, 0, 0, 0, 0, 0, 0, 0, 0, 2, 160] = (3432238872, 1351455891, 1281668701, 2343003775, 3083723952)"
  by (simp add: sha1_compress_def rotl32_def sha1_f_def sha1_k_def next_window_def sha1_rounds.simps)

lemma hmac_rfc:
  "hmac_sha1 [49::nat, 50, 51, 52, 53, 54, 55, 56, 57, 48, 49, 50, 51, 52, 53, 54, 55, 56, 57, 48] [0::nat, 0, 0, 0, 0, 0, 0, 0] = [204, 147, 207, 24, 80, 141, 148, 147, 76, 100, 182, 93, 139, 167, 102, 127, 183, 205, 228, 176]"
proof -
  have i: "map (\<lambda>b. b XOR 54) ([49::nat, 50, 51, 52, 53, 54, 55, 56, 57, 48, 49, 50, 51, 52, 53, 54, 55, 56, 57, 48] @ replicate (64 - length [49::nat, 50, 51, 52, 53, 54, 55, 56, 57, 48, 49, 50, 51, 52, 53, 54, 55, 56, 57, 48]) 0) = [7, 4, 5, 2, 3, 0, 1, 14, 15, 6, 7, 4, 5, 2, 3, 0, 1, 14, 15, 6, 54, 54, 54, 54, 54, 54, 54, 54, 54, 54, 54, 54, 54, 54, 54, 54, 54, 54, 54, 54, 54, 54, 54, 54, 54, 54, 54, 54, 54, 54, 54, 54, 54, 54, 54, 54, 54, 54, 54, 54, 54, 54, 54, 54]"
    by (simp add: replicate_num)
  have o: "map (\<lambda>b. b XOR 92) ([49::nat, 50, 51, 52, 53, 54, 55, 56, 57, 48, 49, 50, 51, 52, 53, 54, 55, 56, 57, 48] @ replicate (64 - length [49::nat, 50, 51, 52, 53, 54, 55, 56, 57, 48, 49, 50, 51, 52, 53, 54, 55, 56, 57, 48]) 0) = [109, 110, 111, 104, 105, 106, 107, 100, 101, 108, 109, 110, 111, 104, 105, 106, 107, 100, 101, 108, 92, 92, 92, 92, 92, 92, 92, 92, 92, 92, 92, 92, 92, 92, 92, 92, 92, 92, 92, 92, 92, 92, 92, 92, 92, 92, 92, 92, 92, 92, 92, 92, 92, 92, 92, 92, 92, 92, 92, 92, 92, 92, 92, 92]"
    by (simp add: replicate_num)
  have "length [49::nat, 50, 51, 52, 53, 54, 55, 56, 57, 48, 49, 50, 51, 52, 53, 54, 55, 56, 57, 48] \<le> 64" and "length [0::nat, 0, 0, 0, 0, 0, 0, 0] \<le> 55"
    by simp_all
  from hmac_short_key [OF this] show ?thesis
    unfolding i o
    by (simp add: replicate_num compress_ipad_rfc compress_opad_rfc compress_inner_rfc
        compress_outer_rfc word_bytes_def replicate_one del: One_nat_def)
qed

lemma byte_secret_rfc:
  "byte_secret (str_of ''GEZDGNBVGY3TQOJQGEZDGNBVGY3TQOJQ'') = Inr [49, 50, 51, 52, 53, 54, 55, 56, 57, 48, 49, 50, 51, 52, 53, 54, 55, 56, 57, 48]"
  by (simp add: byte_secret_def b32decode_def str_of_def b32_quanta.simps b32_rev_def
      ascii_upper_def) (simp add: to_bytes5_def)

lemma str_755224: "str_of (py_str_nat 10000755224) = [49, 48, 48, 48, 48, 55, 53, 53, 50, 50, 52]"
  by (simp add: py_str_nat.simps str_of_def)

lemma code_755224: "str_of ''755224'' = [55, 53, 53, 50, 50, 52]"
  by (simp add: str_of_def)

lemma be_digits_zero: "be_digits 0 = []"
  by (simp add: be_digits.simps)

lemma otp_rfc4226:
  "generate_otp (str_of ''GEZDGNBVGY3TQOJQGEZDGNBVGY3TQOJQ'') 0 = Inr (str_of ''755224'')"
  by (simp add: generate_otp_def byte_secret_rfc int_to_bytestring_def be_digits_zero hmac_rfc
      truncate_code_def str_of_drop str_755224 code_755224 replicate_num)

text \<open>
  The library functions of the file system and of the comparison at inputs where their
  special cases show: the directories above a path; \<open>makedirs\<close> below a regular file;
  the line endings translated at reading; the UTF-8 encoding of code points of two, three
  and four bytes, and of a surrogate.
\<close>

lemma dirname_keys: "dirname (str_of ''/data/keys'') = str_of ''/data''"
  by (simp add: dirname_def str_of_def)

lemma dirname_data: "dirname (str_of ''/data'') = str_of ''/''"
  by (simp add: dirname_def str_of_def)

lemma dirname_root: "dirname (str_of ''/'') = str_of ''/''"
  by (simp add: dirname_def str_of_def)

lemma ancestors_keys: "ancestors (str_of ''/data/keys'') = [str_of ''/data'', str_of ''/'']"
proof -
  have a: "ancestors (str_of ''/'') = []"
    by (subst ancestors.simps) (simp add: dirname_root)
  have b: "ancestors (str_of ''/data'') = [str_of ''/'']"
    by (subst ancestors.simps) (simp add: dirname_data a, simp add: str_of_def)
  show ?thesis
    by (subst ancestors.simps) (simp add: dirname_keys b, simp add: str_of_def)
qed

lemma makedirs_below_file:
  "makedirs (str_of ''/data/keys'')
     \<lparr>files = [str_of ''/data'' \<mapsto> str_of ''x''], dirs = {str_of ''/''}\<rparr>
   = Inl NotADirectoryError"
  by (simp add: makedirs_def ancestors_keys) (simp add: str_of_def)

lemma universal_newlines_vector:
  "universal_newlines [97, 13, 10, 98, 13, 99, 10, 13] = [97, 10, 98, 10, 99, 10, 10]"
  by simp

lemma utf8_encode_vectors:
  "utf8_encode [233] = Inr [195, 169]
   \<and> utf8_encode [8364] = Inr [226, 130, 172]
   \<and> utf8_encode [128512] = Inr [240, 159, 152, 128]
   \<and> utf8_encode [55296] = Inl UnicodeEncodeError"
  by (simp add: utf8_encode_char_def)

lemma strings_equal_surrogate: "strings_equal nfkc [48, 55296] c = Inl UnicodeEncodeError"
  if "nfkc [48, 55296] = [48, 55296]"
  using that by (simp add: strings_equal_def normalize_NFKC_def utf8_encode_char_def)

section \<open>Hexadecimal decoding\<close>

lemma hex_value_hex: "is_hex_digit c \<Longrightarrow> hex_value c = Some (the_hex c)"
  by (auto simp: is_hex_digit_def hex_value_def the_hex_def)

lemma hex_value_Some: "hex_value c = Some v \<Longrightarrow> is_hex_digit c"
  by (auto simp: is_hex_digit_def hex_value_def split: if_splits)

lemma hex_not_ascii_space: "is_hex_digit c \<Longrightarrow> \<not> is_ascii_space c"
  unfolding is_hex_digit_def is_ascii_space_def by arith

lemma fromhex_hex:
  "list_all is_hex_digit s \<Longrightarrow>
     fromhex s = (if even (length s) then Some (hex_pairs s) else None)"
  by (induction s rule: hex_pairs.induct) (simp_all add: hex_value_hex hex_not_ascii_space)

lemma fromhex_hexToBytes: "hexToBytes s = Some bs \<Longrightarrow> fromhex s = Some bs"
  by (auto simp: hexToBytes_def fromhex_hex split: if_splits)

lemma length_hex_pairs: "length (hex_pairs s) = length s div 2"
  by (induction s rule: hex_pairs.induct) simp_all

lemma fromhex_bad:
  "x \<in> set s \<Longrightarrow> \<not> is_hex_digit x \<Longrightarrow> \<not> is_ascii_space x \<Longrightarrow> fromhex s = None"
proof (induction s rule: fromhex.induct)
  case 1
  then show ?case by simp
next
  case (2 c)
  then show ?case by simp
next
  case (3 c d r)
  show ?case
  proof (cases "is_ascii_space c")
    case True
    then have "x \<in> set (d # r)" using "3.prems" by auto
    then show ?thesis using True "3.IH"(1) "3.prems" by simp
  next
    case False
    show ?thesis
    proof (cases "hex_value c")
      case None
      then show ?thesis using False by simp
    next
      case (Some hi)
      show ?thesis
      proof (cases "hex_value d")
        case None
        then show ?thesis using False Some by simp
      next
        case lo: (Some lo)
        have "x \<noteq> c" and "x \<noteq> d"
          using Some lo "3.prems"(2) hex_value_Some by auto
        then have "x \<in> set r" using "3.prems"(1) by simp
        then have "fromhex r = None"
          using "3.IH"(2) [OF False Some lo] "3.prems" by simp
        then show ?thesis using False Some lo by simp
      qed
    qed
  qed
qed

section \<open>Base32 encoding\<close>

lemma b32_alphabet_length: "length b32_alphabet = 32"
  by (simp add: b32_alphabet_def str_of_def)

lemma b32_alphabet_range:
  "c \<in> set b32_alphabet \<Longrightarrow> (65 \<le> c \<and> c \<le> 90) \<or> (50 \<le> c \<and> c \<le> 55)"
  by (auto simp: b32_alphabet_def str_of_def)

lemma b32_quantum_set: "set (b32_quantum n) \<subseteq> set b32_alphabet"
  by (auto simp: b32_quantum_def b32_alphabet_length intro!: nth_mem)

lemma b32_quantum_length: "length (b32_quantum n) = 8"
  by (simp add: b32_quantum_def)

lemma b32_chunks_set: "set (b32_chunks s) \<subseteq> set b32_alphabet"
proof (induction s rule: b32_chunks.induct)
  case (1 s)
  show ?case
  proof (cases "s = []")
    case True
    then show ?thesis by (simp add: b32_chunks.simps)
  next
    case False
    then show ?thesis
      using "1.IH" b32_quantum_set [of "from_bytes (take 5 s)"]
      by (subst b32_chunks.simps) auto
  qed
qed

lemma b32_chunks_length: "length (b32_chunks s) = 8 * ((length s + 4) div 5)"
proof (induction s rule: b32_chunks.induct)
  case (1 s)
  show ?case
  proof (cases "s = []")
    case True
    then show ?thesis by (simp add: b32_chunks.simps)
  next
    case False
    then have pos: "0 < length s" by simp
    have "length (b32_chunks s) = 8 + length (b32_chunks (drop 5 s))"
      using False by (subst b32_chunks.simps) (simp add: b32_quantum_length)
    also have "\<dots> = 8 + 8 * ((length s - 5 + 4) div 5)"
      using "1.IH" [OF False] by simp
    also have "\<dots> = 8 * ((length s + 4) div 5)"
    proof -
      have e: "length s + 4 = (length s - 1) + 5"
        using pos by arith
      have a: "(length s + 4) div 5 = (length s - 1) div 5 + 1"
        by (simp only: e div_add_self2)
      have b: "(length s - 5 + 4) div 5 = (length s - 1) div 5"
      proof (cases "length s < 5")
        case True
        then show ?thesis by simp
      next
        case False
        then have "length s - 5 + 4 = length s - 1" by arith
        then show ?thesis by simp
      qed
      show ?thesis by (simp only: a b) simp
    qed
    finally show ?thesis .
  qed
qed

lemma b32encode_set: "set (b32encode s) \<subseteq> insert 61 (set b32_alphabet)"
proof -
  have "set (take n (b32_chunks t)) \<subseteq> set b32_alphabet" for n t
    using b32_chunks_set [of t] set_take_subset [of n "b32_chunks t"] by blast
  then show ?thesis
    by (auto simp: b32encode_def Let_def)
qed

lemma alphabet_not_space: "c \<in> insert 61 (set b32_alphabet) \<Longrightarrow> \<not> py_isspace c"
  using b32_alphabet_range [of c] by (auto simp: py_isspace_def)

lemma py_strip_nospace: "\<forall>c \<in> set s. \<not> py_isspace c \<Longrightarrow> py_strip s = s"
proof (cases "s = []")
  case True
  then show ?thesis by (simp add: py_strip_def py_lstrip_def py_rstrip_def)
next
  case False
  assume a: "\<forall>c \<in> set s. \<not> py_isspace c"
  have "hd s \<in> set s" and "last s \<in> set s" using False by simp_all
  then show ?thesis using a False by (intro py_strip_fixed) auto
qed

lemma py_strip_b32encode: "py_strip (b32encode bs) = b32encode bs"
  using b32encode_set [of bs] alphabet_not_space
  by (intro py_strip_nospace) blast

lemma hex_to_base32_fromhex:
  "fromhex s = Some bs \<Longrightarrow> hex_to_base32 s = Inr (filter (\<lambda>c. c \<noteq> 61) (b32encode bs))"
  by (simp add: hex_to_base32_def py_strip_b32encode)

lemma hex_to_base32_output:
  assumes "hex_to_base32 s = Inr out"
  shows "61 \<notin> set out \<and> set out \<subseteq> set b32_alphabet"
proof -
  obtain bs where "out = filter (\<lambda>c. c \<noteq> 61) (b32encode bs)"
    using assms by (auto simp: hex_to_base32_def py_strip_b32encode split: option.splits)
  then show ?thesis using b32encode_set [of bs] by auto
qed

section \<open>The secret of a valid seed\<close>

lemma seed_bytes:
  "seed_invariant s \<Longrightarrow> fromhex s = Some (hex_pairs s) \<and> length (hex_pairs s) = 32"
  by (simp add: seed_invariant_def fromhex_hex length_hex_pairs)

lemma pad_not_in_alphabet: "61 \<notin> set b32_alphabet"
  using b32_alphabet_range [of 61] by auto

lemma b32encode_32:
  assumes "length bs = 32"
  shows "\<exists>X. b32encode bs = X @ replicate 4 61 \<and> length X = 52 \<and> set X \<subseteq> set b32_alphabet"
proof -
  define enc where "enc = b32_chunks (bs @ replicate 3 0)"
  have l: "length enc = 56"
    by (simp add: enc_def b32_chunks_length assms)
  have "b32encode bs = take 52 enc @ replicate 4 61"
    using assms l by (simp add: b32encode_def b32_npad_def enc_def Let_def)
  moreover have "length (take 52 enc) = 52"
    using l by simp
  moreover have "set (take 52 enc) \<subseteq> set b32_alphabet"
    using b32_chunks_set [of "bs @ replicate 3 0"] set_take_subset [of 52 enc]
    unfolding enc_def by blast
  ultimately show ?thesis by blast
qed

lemma filter_pad:
  assumes "set X \<subseteq> set b32_alphabet"
  shows "filter (\<lambda>c. c \<noteq> 61) (X @ replicate n 61) = X"
proof -
  have "\<forall>c \<in> set X. c \<noteq> 61"
    using assms pad_not_in_alphabet by auto
  then have "filter (\<lambda>c. c \<noteq> 61) X = X"
    by (simp add: filter_id_conv)
  then show ?thesis by simp
qed

lemma hex_to_base32_seed:
  assumes "seed_invariant s"
  shows "\<exists>X. hex_to_base32 s = Inr X \<and> length X = 52 \<and> set X \<subseteq> set b32_alphabet"
proof -
  from seed_bytes [OF assms] have f: "fromhex s = Some (hex_pairs s)"
    and l: "length (hex_pairs s) = 32" by simp_all
  from b32encode_32 [OF l] obtain X where
    X: "b32encode (hex_pairs s) = X @ replicate 4 61" "length X = 52" "set X \<subseteq> set b32_alphabet"
    by blast
  have "hex_to_base32 s = Inr X"
    using hex_to_base32_fromhex [OF f] X(1) filter_pad [OF X(3)] by simp
  with X show ?thesis by blast
qed

lemma b32_rev_alphabet: "c \<in> set b32_alphabet \<Longrightarrow> b32_rev c \<noteq> None"
  using b32_alphabet_range [of c] by (auto simp: b32_rev_def)

lemma b32_acc_ok: "\<forall>c \<in> set s. b32_rev c \<noteq> None \<Longrightarrow> \<exists>a. b32_acc s acc = Some a"
  by (induction s arbitrary: acc) auto

lemma b32_quanta_ok:
  "\<forall>c \<in> set s. b32_rev c \<noteq> None \<Longrightarrow> \<exists>r. b32_quanta s decoded acc = Some r"
proof (induction s decoded acc rule: b32_quanta.induct)
  case (1 s decoded acc)
  show ?case
  proof (cases "s = []")
    case True
    then show ?thesis by (simp add: b32_quanta.simps)
  next
    case False
    have "\<forall>c \<in> set (take 8 s). b32_rev c \<noteq> None"
      using "1.prems" by (meson in_set_takeD)
    then obtain a where a: "b32_acc (take 8 s) 0 = Some a"
      using b32_acc_ok by blast
    have "\<forall>c \<in> set (drop 8 s). b32_rev c \<noteq> None"
      using "1.prems" by (meson in_set_dropD)
    then obtain r where "b32_quanta (drop 8 s) (decoded @ to_bytes5 a) a = Some r"
      using "1.IH" [OF False a] by blast
    then show ?thesis
      using False a by (subst b32_quanta.simps) simp
  qed
qed

lemma dropWhile_replicate_append: "P x \<Longrightarrow> dropWhile P (replicate n x @ ys) = dropWhile P ys"
  by (induction n) simp_all

lemma byte_secret_ok:
  assumes "length X = 52" and "set X \<subseteq> set b32_alphabet"
  shows "\<exists>key. byte_secret X = Inr key"
proof -
  let ?s = "X @ replicate 4 61"
  have ne: "X \<noteq> []" using assms(1) by auto
  have rng: "\<forall>c \<in> set ?s. c = 61 \<or> (65 \<le> c \<and> c \<le> 90) \<or> (50 \<le> c \<and> c \<le> 55)"
    using assms(2) b32_alphabet_range by auto
  have a: "list_all (\<lambda>c. c < 128) ?s"
    using rng by (fastforce simp: list_all_iff)
  have c: "map ascii_upper ?s = ?s"
    using rng by (intro map_idI) (fastforce simp: ascii_upper_def)
  have "last X \<in> set X" using ne by simp
  then have "last X \<noteq> 61" using assms(2) pad_not_in_alphabet by auto
  then have "dropWhile (\<lambda>c. c = 61) (rev X) = rev X"
    using ne by (intro dropWhile_keep) (simp_all add: hd_rev)
  then have d: "rev (dropWhile (\<lambda>c. c = 61) (rev ?s)) = X"
    by (simp add: dropWhile_replicate_append)
  have "\<forall>c \<in> set X. b32_rev c \<noteq> None"
    using assms(2) b32_rev_alphabet by blast
  then obtain decoded acc where q: "b32_quanta X [] 0 = Some (decoded, acc)"
    using b32_quanta_ok [of X "[]" 0] by fastforce
  have b: "byte_secret X = b32decode ?s"
    using assms(1) by (simp add: byte_secret_def)
  have l: "length ?s = 56" using assms(1) by simp
  show ?thesis
    unfolding b b32decode_def Let_def c d
    using a q l assms(1) by simp
qed

section \<open>The form of a code\<close>

lemma py_str_nat_digits: "\<forall>c \<in> set (py_str_nat n). 48 \<le> (of_char c :: nat) \<and> (of_char c :: nat) \<le> 57"
proof (induction n rule: py_str_nat.induct)
  case (1 n)
  show ?case
  proof (cases "n < 10")
    case True
    then show ?thesis by (subst py_str_nat.simps) simp
  next
    case False
    have "n mod 10 < 10" by simp
    then have "48 + n mod 10 < 256" by arith
    then show ?thesis
      using "1.IH" [OF False] False by (subst py_str_nat.simps) auto
  qed
qed

lemma py_str_nat_length:
  "10 ^ k \<le> n \<Longrightarrow> n < 10 ^ Suc k \<Longrightarrow> length (py_str_nat n) = Suc k"
proof (induction k arbitrary: n)
  case 0
  then show ?case by (subst py_str_nat.simps) simp
next
  case (Suc k)
  have ge: "\<not> n < 10"
  proof -
    have p: "(1::nat) \<le> 10 ^ k" by simp
    from Suc.prems(1) have "10 * 10 ^ k \<le> n" by simp
    with p show ?thesis by linarith
  qed
  have lo: "10 ^ k \<le> n div 10"
    using Suc.prems(1) by (simp add: less_eq_div_iff_mult_less_eq)
  have hi: "n div 10 < 10 ^ Suc k"
    using Suc.prems(2) by (simp add: div_less_iff_less_mult)
  have "length (py_str_nat (n div 10)) = Suc k"
    using Suc.IH [OF lo hi] .
  then show ?case
    using ge by (subst py_str_nat.simps) simp
qed

lemma code_suffix:
  assumes "x < 1000000"
  shows "length (str_of (drop (length (py_str_nat (10000000000 + x)) - 6)
                          (py_str_nat (10000000000 + x)))) = 6
    \<and> (\<forall>ch \<in> set (str_of (drop (length (py_str_nat (10000000000 + x)) - 6)
                          (py_str_nat (10000000000 + x)))). 48 \<le> ch \<and> ch \<le> 57)"
proof -
  let ?s = "py_str_nat (10000000000 + x)"
  have "length ?s = Suc 10"
    using assms by (intro py_str_nat_length) simp_all
  then have l: "length (drop (length ?s - 6) ?s) = 6" by simp
  have "set (drop (length ?s - 6) ?s) \<subseteq> set ?s"
    by (rule set_drop_subset)
  then have "\<forall>c \<in> set (drop (length ?s - 6) ?s). 48 \<le> (of_char c :: nat) \<and> (of_char c :: nat) \<le> 57"
    using py_str_nat_digits [of "10000000000 + x"] by blast
  then show ?thesis
    using l by (auto simp: str_of_def)
qed

lemma generate_otp_format:
  assumes "byte_secret secret = Inr key" and "0 \<le> c"
  shows "\<exists>code. generate_otp secret c = Inr code \<and> length code = 6
           \<and> (\<forall>ch \<in> set code. 48 \<le> ch \<and> ch \<le> 57)"
proof -
  define x where "x = truncate_code (hmac_sha1 (map unat key) (int_to_bytestring (nat c))) mod 10 ^ 6"
  have "x < 1000000" by (simp add: x_def)
  from code_suffix [OF this] show ?thesis
    using assms by (simp add: generate_otp_def Let_def x_def)
qed

lemma seed_codes:
  assumes "seed_invariant s" and "0 \<le> c"
  shows "\<exists>b32 code. hex_to_base32 s = Inr b32 \<and> generate_otp b32 c = Inr code \<and> length code = 6
           \<and> (\<forall>ch \<in> set code. 48 \<le> ch \<and> ch \<le> 57)"
proof -
  from hex_to_base32_seed [OF assms(1)] obtain X where
    X: "hex_to_base32 s = Inr X" "length X = 52" "set X \<subseteq> set b32_alphabet" by blast
  from byte_secret_ok [OF X(2,3)] obtain key where "byte_secret X = Inr key" by blast
  from generate_otp_format [OF this assms(2)] X(1) show ?thesis by blast
qed

lemma zero_secret_list: "zero_secret = [65, 65, 65, 65, 65, 65, 65, 65, 65, 65, 65, 65, 65, 65, 65, 65, 65, 65, 65, 65, 65, 65, 65, 65, 65, 65, 65, 65, 65, 65, 65, 65, 65, 65, 65, 65, 65, 65, 65, 65, 65, 65, 65, 65, 65, 65, 65, 65, 65, 65, 65, 65]"
  by (simp add: zero_secret_def replicate_num)

lemma seed_invariant_zero: "seed_invariant zero_seed"
  by (simp add: seed_invariant_def zero_seed_def str_of_def is_hex_digit_def)

section \<open>The base32 form of the seed\<close>

lemma fromhex_skip: "is_ascii_space c \<Longrightarrow> fromhex (c # s) = fromhex s"
  by (cases s) simp_all

lemma hexToBytes_ab_cd: "hexToBytes (str_of ''ab cd'') = None"
  by (simp add: hexToBytes_def str_of_def is_hex_digit_def)

lemma from_bytes_abcd: "from_bytes [171, 205, 0, 0, 0] = 737878736896"
  by (simp add: from_bytes_def)

lemma quantum_abcd: "b32_quantum 737878736896 = str_of ''VPGQAAAA''"
  by (simp add: b32_quantum_def) (simp add: b32_alphabet_def str_of_def)

lemma chunks_abcd: "b32_chunks [171, 205, 0, 0, 0] = str_of ''VPGQAAAA''"
  by (simp add: b32_chunks.simps from_bytes_abcd quantum_abcd)

lemma b32encode_abcd: "b32encode [171, 205] = str_of ''VPGQ===='' "
  by (simp add: b32encode_def b32_npad_def replicate_num chunks_abcd) (simp add: str_of_def)

lemma fromhex_ab_cd: "fromhex (str_of ''ab cd'') = Some [171, 205]"
  by (simp add: str_of_def hex_value_def is_ascii_space_def)

lemma hex_to_base32_ab_cd: "hex_to_base32 (str_of ''ab cd'') = Inr (str_of ''VPGQ'')"
  using hex_to_base32_fromhex [OF fromhex_ab_cd] by (simp add: b32encode_abcd) (simp add: str_of_def)

text \<open>
  Claim C7 as stated fails where it says that every input that is not valid hex is
  refused: \<open>ab cd\<close> has a space and an odd length, \<open>hexToBytes\<close> of the specification
  refuses it, and \<open>hex_to_base32\<close> returns the base32 form of the bytes \<open>ab\<close>, \<open>cd\<close>.
\<close>

theorem hex_to_base32_counterexample:
  "hexToBytes (str_of ''ab cd'') = None
   \<and> hex_to_base32 (str_of ''ab cd'') = Inr (str_of ''VPGQ'')"
  using hexToBytes_ab_cd hex_to_base32_ab_cd by simp

text \<open>
  Claim C7 as amended. On every valid hex string (hexadecimal digits only, even length)
  \<open>hex_to_base32\<close> returns the base32 encoding of the decoded bytes with every \<open>=\<close>
  removed; whatever it returns has no \<open>=\<close> and only characters of the base32 alphabet.
  For a seed (64 hexadecimal digits, 32 bytes) the result has 52 characters.
  ASCII whitespace before a pair of digits is skipped, as \<open>bytes.fromhex\<close> does. The
  error \<open>Invalid hex seed\<close> is raised for an input with a character that is neither a
  hexadecimal digit nor ASCII whitespace, and for an odd number of hexadecimal digits.
\<close>

theorem hex_to_base32_codec:
  "(\<forall>bs. hexToBytes s = Some bs \<longrightarrow>
       hex_to_base32 s = Inr (filter (\<lambda>c. c \<noteq> 61) (b32encode bs)))
   \<and> (\<forall>out. hex_to_base32 s = Inr out \<longrightarrow> 61 \<notin> set out \<and> set out \<subseteq> set b32_alphabet)
   \<and> (\<forall>c. is_ascii_space c \<longrightarrow> hex_to_base32 (c # s) = hex_to_base32 s)
   \<and> ((\<exists>c \<in> set s. \<not> is_hex_digit c \<and> \<not> is_ascii_space c) \<longrightarrow>
        hex_to_base32 s = Inl (ValueError ''Invalid hex seed''))
   \<and> (list_all is_hex_digit s \<and> odd (length s) \<longrightarrow>
        hex_to_base32 s = Inl (ValueError ''Invalid hex seed''))
   \<and> (seed_invariant s \<longrightarrow> (\<exists>out. hex_to_base32 s = Inr out \<and> length out = 52))"
proof -
  have a: "\<forall>bs. hexToBytes s = Some bs \<longrightarrow>
       hex_to_base32 s = Inr (filter (\<lambda>c. c \<noteq> 61) (b32encode bs))"
    using fromhex_hexToBytes hex_to_base32_fromhex by blast
  have b: "\<forall>out. hex_to_base32 s = Inr out \<longrightarrow> 61 \<notin> set out \<and> set out \<subseteq> set b32_alphabet"
    using hex_to_base32_output by blast
  have c: "\<forall>c. is_ascii_space c \<longrightarrow> hex_to_base32 (c # s) = hex_to_base32 s"
    by (simp add: hex_to_base32_def fromhex_skip)
  have d: "(\<exists>c \<in> set s. \<not> is_hex_digit c \<and> \<not> is_ascii_space c) \<longrightarrow>
        hex_to_base32 s = Inl (ValueError ''Invalid hex seed'')"
    using fromhex_bad [of _ s] by (auto simp: hex_to_base32_def)
  have e: "list_all is_hex_digit s \<and> odd (length s) \<longrightarrow>
        hex_to_base32 s = Inl (ValueError ''Invalid hex seed'')"
    by (auto simp: hex_to_base32_def fromhex_hex)
  have f: "seed_invariant s \<longrightarrow> (\<exists>out. hex_to_base32 s = Inr out \<and> length out = 52)"
    using hex_to_base32_seed [of s] by blast
  from a b c d e f show ?thesis by blast
qed

lemma hexToBytes_abcd: "hexToBytes (str_of ''abcd'') = Some [171, 205]"
  by (simp add: hexToBytes_def str_of_def is_hex_digit_def the_hex_def hex_value_def)

theorem hex_to_base32_codec_witness:
  "hex_to_base32 (str_of ''abcd'') = Inr (str_of ''VPGQ'')
   \<and> hex_to_base32 (32 # str_of ''abcd'') = Inr (str_of ''VPGQ'')
   \<and> hex_to_base32 (str_of ''abxd'') = Inl (ValueError ''Invalid hex seed'')
   \<and> hex_to_base32 (str_of ''abc'') = Inl (ValueError ''Invalid hex seed'')"
proof -
  have 1: "hex_to_base32 (str_of ''abcd'') = Inr (str_of ''VPGQ'')"
    using hex_to_base32_codec [of "str_of ''abcd''"] hexToBytes_abcd
    by (simp add: b32encode_abcd) (simp add: str_of_def)
  have 2: "hex_to_base32 (32 # str_of ''abcd'') = hex_to_base32 (str_of ''abcd'')"
    using hex_to_base32_codec [of "str_of ''abcd''"] by (simp add: is_ascii_space_def)
  have "\<exists>c \<in> set (str_of ''abxd''). \<not> is_hex_digit c \<and> \<not> is_ascii_space c"
    by (simp add: str_of_def is_hex_digit_def is_ascii_space_def)
  then have 3: "hex_to_base32 (str_of ''abxd'') = Inl (ValueError ''Invalid hex seed'')"
    using hex_to_base32_codec [of "str_of ''abxd''"] by blast
  have "list_all is_hex_digit (str_of ''abc'') \<and> odd (length (str_of ''abc''))"
    by (simp add: str_of_def is_hex_digit_def)
  then have 4: "hex_to_base32 (str_of ''abc'') = Inl (ValueError ''Invalid hex seed'')"
    using hex_to_base32_codec [of "str_of ''abc''"] by blast
  from 1 2 3 4 show ?thesis by simp
qed

section \<open>The validity period\<close>

lemma timecode_nonneg: "0 \<le> t \<Longrightarrow> 0 \<le> timecode t"
  by (simp add: timecode_def)

text \<open>
  Claim C4. Whenever \<open>generate_totp_from_hex\<close> returns, the second component is
  \<open>30 - (clock mod 30)\<close> for the clock reading taken for it; that number lies between 1 and
  30, is 30 when the reading is a multiple of 30 and 1 when it is 29 more than one. For a
  seed that satisfies the Seed invariant and a clock not before the epoch the function does
  return.
\<close>

theorem valid_for_formula:
  "(\<forall>code v. generate_totp_from_hex hex_seed clock_code clock_valid = Inr (code, v) \<longrightarrow>
        v = 30 - clock_valid mod 30)
   \<and> 1 \<le> 30 - clock_valid mod 30 \<and> 30 - clock_valid mod 30 \<le> 30
   \<and> (clock_valid mod 30 = 0 \<longrightarrow> 30 - clock_valid mod 30 = 30)
   \<and> (clock_valid mod 30 = 29 \<longrightarrow> 30 - clock_valid mod 30 = 1)
   \<and> (seed_invariant hex_seed \<and> 0 \<le> clock_code \<longrightarrow>
        (\<exists>code. generate_totp_from_hex hex_seed clock_code clock_valid
                  = Inr (code, 30 - clock_valid mod 30)))"
proof -
  have a: "\<forall>code v. generate_totp_from_hex hex_seed clock_code clock_valid = Inr (code, v) \<longrightarrow>
        v = 30 - clock_valid mod 30"
    by (auto simp: generate_totp_from_hex_def split: sum.splits)
  have lo: "0 \<le> clock_valid mod 30" and hi: "clock_valid mod 30 < 30"
    by simp_all
  have b: "seed_invariant hex_seed \<and> 0 \<le> clock_code \<longrightarrow>
        (\<exists>code. generate_totp_from_hex hex_seed clock_code clock_valid
                  = Inr (code, 30 - clock_valid mod 30))"
  proof
    assume h: "seed_invariant hex_seed \<and> 0 \<le> clock_code"
    then have "0 \<le> timecode clock_code" by (simp add: timecode_nonneg)
    from seed_codes [OF _ this, of hex_seed] h obtain b32 code where
      "hex_to_base32 hex_seed = Inr b32" "generate_otp b32 (timecode clock_code) = Inr code"
      by blast
    then show "\<exists>code. generate_totp_from_hex hex_seed clock_code clock_valid
                  = Inr (code, 30 - clock_valid mod 30)"
      by (simp add: generate_totp_from_hex_def totp_now_def)
  qed
  from a b lo hi show ?thesis by auto
qed

theorem valid_for_formula_witness:
  "(\<exists>code. generate_totp_from_hex zero_seed 1791710910 1791710910 = Inr (code, 30))
   \<and> (\<exists>code. generate_totp_from_hex zero_seed 1791710910 1791710939 = Inr (code, 1))"
proof -
  have "\<exists>code. generate_totp_from_hex zero_seed 1791710910 1791710910
          = Inr (code, 30 - 1791710910 mod 30)"
    using valid_for_formula [of zero_seed 1791710910 1791710910] seed_invariant_zero by simp
  moreover have "\<exists>code. generate_totp_from_hex zero_seed 1791710910 1791710939
          = Inr (code, 30 - 1791710939 mod 30)"
    using valid_for_formula [of zero_seed 1791710910 1791710939] seed_invariant_zero by simp
  ultimately show ?thesis by simp
qed

section \<open>Verification within the window\<close>

lemma window_offsets: "[- 1..(1::int)] = [- 1, 0, 1]"
  by (simp add: upto_rec1)

lemma utf8_encode_ascii:
  "list_all (\<lambda>c. c < 128) s \<Longrightarrow> utf8_encode s = Inr (map of_nat s)"
  by (induction s) (simp_all add: utf8_encode_char_def)

lemma ascii_byte_inj: "inj_on (of_nat :: nat \<Rightarrow> byte) {c. c < 128}"
proof (rule inj_onI)
  fix x y :: nat
  assume x: "x \<in> {c. c < 128}" and y: "y \<in> {c. c < 128}"
    and e: "(of_nat x :: byte) = of_nat y"
  have "x < 2 ^ 8" and "y < 2 ^ 8"
    using x y by simp_all
  then have tx: "take_bit 8 x = x" and ty: "take_bit 8 y = y"
    by (simp_all only: take_bit_nat_eq_self)
  from e have "take_bit 8 x = take_bit 8 y"
    by (simp add: word_of_nat_eq_iff)
  then show "x = y"
    by (simp only: tx ty)
qed

lemma ascii_bytes_eq:
  assumes "list_all (\<lambda>c. c < 128) s" and "list_all (\<lambda>c. c < 128) t"
  shows "(map of_nat s :: byte list) = map of_nat t \<longleftrightarrow> s = t"
proof (rule inj_on_map_eq_map)
  have "set s \<union> set t \<subseteq> {c. c < 128}"
    using assms by (auto simp: list_all_iff)
  then show "inj_on (of_nat :: nat \<Rightarrow> byte) (set s \<union> set t)"
    by (rule inj_on_subset [OF ascii_byte_inj])
qed

lemma strings_equal_ascii:
  assumes "list_all (\<lambda>c. c < 128) s1" and "list_all (\<lambda>c. c < 128) s2"
  shows "strings_equal nfkc s1 s2 = Inr (s1 = s2)"
  using assms
  by (simp add: strings_equal_def normalize_NFKC_def utf8_encode_ascii ascii_bytes_eq)

lemma digits_ascii:
  "\<forall>ch \<in> set c. 48 \<le> ch \<and> ch \<le> (57::nat) \<Longrightarrow> list_all (\<lambda>ch. ch < 128) c"
  by (auto simp: list_all_iff)

lemma generate_otp_ascii:
  assumes "byte_secret secret = Inr key" and "generate_otp secret c = Inr x"
  shows "list_all (\<lambda>ch. ch < 128) x"
proof (cases "0 \<le> c")
  case True
  from generate_otp_format [OF assms(1) True] obtain code where
    "generate_otp secret c = Inr code" and "\<forall>ch \<in> set code. 48 \<le> ch \<and> ch \<le> 57"
    by blast
  with assms(2) have "\<forall>ch \<in> set x. 48 \<le> ch \<and> ch \<le> 57"
    by simp
  then show ?thesis by (rule digits_ascii)
next
  case False
  then show ?thesis using assms(2) by (simp add: generate_otp_def)
qed

lemma verify_three:
  assumes "generate_otp b32 (timecode clock - 1) = Inr c1"
    and "generate_otp b32 (timecode clock) = Inr c2"
    and "generate_otp b32 (timecode clock + 1) = Inr c3"
    and "list_all (\<lambda>ch. ch < 128) c1" and "list_all (\<lambda>ch. ch < 128) c2"
    and "list_all (\<lambda>ch. ch < 128) c3" and "list_all (\<lambda>ch. ch < 128) code"
  shows "totp_verify nfkc b32 code clock 1 = Inr (code = c1 \<or> code = c2 \<or> code = c3)"
  using assms by (simp add: totp_verify_def window_offsets strings_equal_ascii)

lemma window_codes:
  assumes "seed_invariant hex_seed" and "30 \<le> clock"
  shows "\<exists>b32 c1 c2 c3.
      hex_to_base32 hex_seed = Inr b32
    \<and> generate_otp b32 (timecode clock - 1) = Inr c1
    \<and> generate_otp b32 (timecode clock) = Inr c2
    \<and> generate_otp b32 (timecode clock + 1) = Inr c3
    \<and> (\<forall>c \<in> {c1, c2, c3}. length c = 6 \<and> (\<forall>ch \<in> set c. 48 \<le> ch \<and> ch \<le> 57))
    \<and> (\<forall>d x. generate_otp b32 d = Inr x \<longrightarrow> list_all (\<lambda>ch. ch < 128) x)
    \<and> (\<forall>nfkc code. list_all (\<lambda>ch. ch < 128) code \<longrightarrow>
          verify_totp_from_hex nfkc hex_seed code 1 clock
            = Inr (code = c1 \<or> code = c2 \<or> code = c3))"
proof -
  have tc: "1 \<le> timecode clock"
    using assms(2) by (simp add: timecode_def)
  from hex_to_base32_seed [OF assms(1)] obtain b32 where
    X: "hex_to_base32 hex_seed = Inr b32" "length b32 = 52" "set b32 \<subseteq> set b32_alphabet"
    by blast
  from byte_secret_ok [OF X(2,3)] obtain key where key: "byte_secret b32 = Inr key"
    by blast
  have fmt: "\<exists>code. generate_otp b32 c = Inr code \<and> length code = 6
           \<and> (\<forall>ch \<in> set code. 48 \<le> ch \<and> ch \<le> 57)" if "0 \<le> c" for c
    using generate_otp_format [OF key that] .
  from fmt [of "timecode clock - 1"] tc obtain c1 where
    c1: "generate_otp b32 (timecode clock - 1) = Inr c1" "length c1 = 6"
      "\<forall>ch \<in> set c1. 48 \<le> ch \<and> ch \<le> 57" by auto
  from fmt [of "timecode clock"] tc obtain c2 where
    c2: "generate_otp b32 (timecode clock) = Inr c2" "length c2 = 6"
      "\<forall>ch \<in> set c2. 48 \<le> ch \<and> ch \<le> 57" by auto
  from fmt [of "timecode clock + 1"] tc obtain c3 where
    c3: "generate_otp b32 (timecode clock + 1) = Inr c3" "length c3 = 6"
      "\<forall>ch \<in> set c3. 48 \<le> ch \<and> ch \<le> 57" by auto
  have a: "\<forall>d x. generate_otp b32 d = Inr x \<longrightarrow> list_all (\<lambda>ch. ch < 128) x"
    using generate_otp_ascii [OF key] by blast
  have v: "verify_totp_from_hex nfkc hex_seed code 1 clock
             = Inr (code = c1 \<or> code = c2 \<or> code = c3)"
    if "list_all (\<lambda>ch. ch < 128) code" for nfkc code
    using verify_three [OF c1(1) c2(1) c3(1) digits_ascii [OF c1(3)] digits_ascii [OF c2(3)]
        digits_ascii [OF c3(3)] that] X(1)
    by (simp add: verify_totp_from_hex_def)
  have "hex_to_base32 hex_seed = Inr b32
    \<and> generate_otp b32 (timecode clock - 1) = Inr c1
    \<and> generate_otp b32 (timecode clock) = Inr c2
    \<and> generate_otp b32 (timecode clock + 1) = Inr c3
    \<and> (\<forall>c \<in> {c1, c2, c3}. length c = 6 \<and> (\<forall>ch \<in> set c. 48 \<le> ch \<and> ch \<le> 57))
    \<and> (\<forall>d x. generate_otp b32 d = Inr x \<longrightarrow> list_all (\<lambda>ch. ch < 128) x)
    \<and> (\<forall>nfkc code. list_all (\<lambda>ch. ch < 128) code \<longrightarrow>
          verify_totp_from_hex nfkc hex_seed code 1 clock
            = Inr (code = c1 \<or> code = c2 \<or> code = c3))"
    using X(1) c1 c2 c3 a v by simp
  then show ?thesis by blast
qed

lemma verify_other_length:
  assumes "seed_invariant hex_seed" and "30 \<le> clock"
    and "list_all (\<lambda>ch. ch < 128) code" and "length code \<noteq> 6"
  shows "verify_totp_from_hex nfkc hex_seed code 1 clock = Inr False"
proof -
  from window_codes [OF assms(1,2)] obtain c1 c2 c3 where
    l: "\<forall>c \<in> {c1, c2, c3}. length c = 6"
    and v: "\<forall>nfkc code. list_all (\<lambda>ch. ch < 128) code \<longrightarrow>
          verify_totp_from_hex nfkc hex_seed code 1 clock
            = Inr (code = c1 \<or> code = c2 \<or> code = c3)"
    by blast
  have "code \<noteq> c1 \<and> code \<noteq> c2 \<and> code \<noteq> c3"
    using l assms(4) by auto
  with v assms(3) show ?thesis by simp
qed

lemma compress_inner_padded:
  "sha1_compress (3388456279, 1645991739, 3926911697, 1101373746, 1313814045) [0, 0, 0, 0, 3, 143, 79, 211, 128, 0, 0, 0, 0, 0, 0, 0, 0, 0, 0, 0, 0, 0, 0, 0, 0, 0, 0, 0, 0, 0, 0, 0, 0, 0, 0, 0, 0, 0, 0, 0, 0, 0, 0, 0, 0, 0, 0, 0, 0, 0, 0, 0, 0, 0, 0, 0, 0, 0, 0, 0, 0, 0, 2, 64] = (3589352946, 3247815648, 3036379112, 262418745, 22648959)"
  by (simp add: sha1_compress_def rotl32_def sha1_f_def sha1_k_def next_window_def sha1_rounds.simps)

lemma compress_outer_padded:
  "sha1_compress (2542412964, 1893397715, 333561480, 947659313, 1951813997) [213, 241, 45, 242, 193, 149, 187, 224, 180, 251, 119, 232, 15, 164, 49, 57, 1, 89, 152, 127, 128, 0, 0, 0, 0, 0, 0, 0, 0, 0, 0, 0, 0, 0, 0, 0, 0, 0, 0, 0, 0, 0, 0, 0, 0, 0, 0, 0, 0, 0, 0, 0, 0, 0, 0, 0, 0, 0, 0, 0, 0, 0, 2, 160] = (2846638105, 2710991692, 4075609117, 4231677719, 1963724491)"
  by (simp add: sha1_compress_def rotl32_def sha1_f_def sha1_k_def next_window_def sha1_rounds.simps)

lemma hmac_padded:
  "hmac_sha1 [0, 0, 0, 0, 0, 0, 0, 0, 0, 0, 0, 0, 0, 0, 0, 0, 0, 0, 0, 0, 0, 0, 0, 0, 0, 0, 0, 0, 0, 0, 0, 0] [0, 0, 0, 0, 3, 143, 79, 211] = [169, 172, 64, 25, 161, 150, 115, 76, 242, 236, 220, 29, 252, 58, 71, 23, 117, 12, 14, 203]"
  by (simp add: hmac_zero_key compress_inner_padded compress_outer_padded word_bytes_def replicate_num
      replicate_one del: One_nat_def)

lemma be_digits_padded: "be_digits 59723731 = [3, 143, 79, 211]"
  by (simp add: be_digits.simps)

lemma str_069255: "str_of (py_str_nat 10000069255) = [49, 48, 48, 48, 48, 48, 54, 57, 50, 53, 53]"
  by (simp add: py_str_nat.simps str_of_def)

lemma code_069255: "str_of ''069255'' = [48, 54, 57, 50, 53, 53]"
  by (simp add: str_of_def)

lemma otp_padded: "generate_otp [65, 65, 65, 65, 65, 65, 65, 65, 65, 65, 65, 65, 65, 65, 65, 65, 65, 65, 65, 65, 65, 65, 65, 65, 65, 65, 65, 65, 65, 65, 65, 65, 65, 65, 65, 65, 65, 65, 65, 65, 65, 65, 65, 65, 65, 65, 65, 65, 65, 65, 65, 65] 59723731 = Inr (str_of ''069255'')"
  by (simp add: generate_otp_def bs_zero int_to_bytestring_def be_digits_padded hmac_padded
      truncate_code_def str_of_drop str_069255 code_069255 replicate_num)

lemma compress_inner_epoch:
  "sha1_compress (3388456279, 1645991739, 3926911697, 1101373746, 1313814045) [0, 0, 0, 0, 0, 0, 0, 0, 128, 0, 0, 0, 0, 0, 0, 0, 0, 0, 0, 0, 0, 0, 0, 0, 0, 0, 0, 0, 0, 0, 0, 0, 0, 0, 0, 0, 0, 0, 0, 0, 0, 0, 0, 0, 0, 0, 0, 0, 0, 0, 0, 0, 0, 0, 0, 0, 0, 0, 0, 0, 0, 0, 2, 64] = (2655888904, 3091152524, 367657846, 1529213119, 1612819996)"
  by (simp add: sha1_compress_def rotl32_def sha1_f_def sha1_k_def next_window_def sha1_rounds.simps)

lemma compress_outer_epoch:
  "sha1_compress (2542412964, 1893397715, 333561480, 947659313, 1951813997) [158, 77, 166, 8, 184, 63, 62, 140, 21, 234, 3, 118, 91, 37, 240, 191, 96, 33, 174, 28, 128, 0, 0, 0, 0, 0, 0, 0, 0, 0, 0, 0, 0, 0, 0, 0, 0, 0, 0, 0, 0, 0, 0, 0, 0, 0, 0, 0, 0, 0, 0, 0, 0, 0, 0, 0, 0, 0, 0, 0, 0, 0, 2, 160] = (3669400281, 2385016399, 2541675080, 2119122792, 1941086871)"
  by (simp add: sha1_compress_def rotl32_def sha1_f_def sha1_k_def next_window_def sha1_rounds.simps)

lemma hmac_epoch:
  "hmac_sha1 [0, 0, 0, 0, 0, 0, 0, 0, 0, 0, 0, 0, 0, 0, 0, 0, 0, 0, 0, 0, 0, 0, 0, 0, 0, 0, 0, 0, 0, 0, 0, 0] [0, 0, 0, 0, 0, 0, 0, 0] = [218, 182, 154, 217, 142, 40, 118, 79, 151, 126, 226, 72, 126, 79, 63, 104, 115, 178, 162, 151]"
  by (simp add: hmac_zero_key compress_inner_epoch compress_outer_epoch word_bytes_def replicate_num)

lemma str_328482: "str_of (py_str_nat 10000328482) = [49, 48, 48, 48, 48, 51, 50, 56, 52, 56, 50]"
  by (simp add: py_str_nat.simps str_of_def)

lemma code_328482: "str_of ''328482'' = [51, 50, 56, 52, 56, 50]"
  by (simp add: str_of_def)

lemma otp_epoch: "generate_otp [65, 65, 65, 65, 65, 65, 65, 65, 65, 65, 65, 65, 65, 65, 65, 65, 65, 65, 65, 65, 65, 65, 65, 65, 65, 65, 65, 65, 65, 65, 65, 65, 65, 65, 65, 65, 65, 65, 65, 65, 65, 65, 65, 65, 65, 65, 65, 65, 65, 65, 65, 65] 0 = Inr (str_of ''328482'')"
  by (simp add: generate_otp_def bs_zero int_to_bytestring_def be_digits_zero hmac_epoch
      truncate_code_def str_of_drop str_328482 code_328482 replicate_num)

lemma code_69255: "str_of ''69255'' = [54, 57, 50, 53, 53]"
  by (simp add: str_of_def)

lemma verify_unpadded:
  "verify_totp_from_hex nfkc zero_seed (str_of ''69255'') 1 1791711930 = Inr False"
  by (rule verify_other_length [OF seed_invariant_zero]) (simp_all add: code_69255)

lemma verify_epoch:
  "verify_totp_from_hex nfkc zero_seed code 1 10
     = Inl (ValueError ''input must be positive integer'')"
proof -
  have t: "timecode 10 = 0"
    by (simp add: timecode_def)
  have g: "generate_otp b32 (- 1) = Inl (ValueError ''input must be positive integer'')" for b32
    by (simp add: generate_otp_def)
  show ?thesis
    by (simp add: verify_totp_from_hex_def hex_zero totp_verify_def t window_offsets g)
qed

text \<open>
  Claim C3 as stated fails in three places, each shown for the seed of 64 zeros.

  A code generated two steps away is not always refused: the code of counter 59723699 is
  \<open>200388\<close>, which is also the code of counter 59723696; at the clock reading 1791710910,
  whose counter is 59723697, \<open>verify_totp_from_hex\<close> with window 1 accepts it.

  The submitted string is not brought to the zero-padded width of six digits: the code of
  counter 59723731 is \<open>069255\<close>, and at the clock reading 1791711930, whose counter that
  is, the string \<open>69255\<close> is refused.

  Not every counter has a window: at the clock reading 10, whose counter is 0,
  the code of counter 0 exists, but verifying it raises \<open>ValueError\<close>, since the code of
  counter \<open>- 1\<close> is asked for first.
\<close>

theorem verify_window_counterexample:
  "seed_invariant zero_seed
   \<and> hex_to_base32 zero_seed = Inr zero_secret
   \<and> timecode 1791710910 = 59723697
   \<and> generate_otp zero_secret (59723697 + 2) = Inr (str_of ''200388'')
   \<and> (\<forall>nfkc. verify_totp_from_hex nfkc zero_seed (str_of ''200388'') 1 1791710910 = Inr True)
   \<and> timecode 1791711930 = 59723731
   \<and> generate_otp zero_secret 59723731 = Inr (str_of ''069255'')
   \<and> (\<forall>nfkc. verify_totp_from_hex nfkc zero_seed (str_of ''69255'') 1 1791711930 = Inr False)
   \<and> timecode 10 = 0
   \<and> generate_otp zero_secret 0 = Inr (str_of ''328482'')
   \<and> (\<forall>nfkc. verify_totp_from_hex nfkc zero_seed (str_of ''328482'') 1 10
         = Inl (ValueError ''input must be positive integer''))"
  using seed_invariant_zero hex_zero otp_after verify_collision otp_padded verify_unpadded
    otp_epoch verify_epoch
  by (simp add: zero_secret_list timecode_def)

text \<open>
  Claim C3 as amended. For every seed that satisfies the Seed invariant and every clock
  reading from 30 seconds after the epoch on, with \<open>C \<ge> 1\<close> the counter of the reading:
  the codes of the counters \<open>C - 1\<close>, \<open>C\<close> and \<open>C + 1\<close> exist and are strings of six
  decimal digits; \<open>verify_totp_from_hex\<close> with window 1 returns true when the submitted
  string equals one of these three codes, character for character, and for a submitted
  string of ASCII characters it returns true only then (nothing is padded: a string of
  another length is refused); and it returns false for a code generated at \<open>C - 2\<close> or
  \<open>C + 2\<close> unless that code equals one of the three.
\<close>

theorem verify_window:
  assumes "seed_invariant hex_seed" and "30 \<le> clock"
  shows "\<exists>b32 c1 c2 c3.
      hex_to_base32 hex_seed = Inr b32
    \<and> generate_otp b32 (timecode clock - 1) = Inr c1
    \<and> generate_otp b32 (timecode clock) = Inr c2
    \<and> generate_otp b32 (timecode clock + 1) = Inr c3
    \<and> (\<forall>c \<in> {c1, c2, c3}. length c = 6 \<and> (\<forall>ch \<in> set c. 48 \<le> ch \<and> ch \<le> 57))
    \<and> (\<forall>c \<in> {c1, c2, c3}. verify_totp_from_hex nfkc hex_seed c 1 clock = Inr True)
    \<and> (\<forall>code. list_all (\<lambda>ch. ch < 128) code \<longrightarrow>
          verify_totp_from_hex nfkc hex_seed code 1 clock
            = Inr (code = c1 \<or> code = c2 \<or> code = c3))
    \<and> (\<forall>code. list_all (\<lambda>ch. ch < 128) code \<and> length code \<noteq> 6 \<longrightarrow>
          verify_totp_from_hex nfkc hex_seed code 1 clock = Inr False)
    \<and> (\<forall>d \<in> {- 2, 2}. \<forall>x. generate_otp b32 (timecode clock + d) = Inr x
            \<and> x \<noteq> c1 \<and> x \<noteq> c2 \<and> x \<noteq> c3
          \<longrightarrow> verify_totp_from_hex nfkc hex_seed x 1 clock = Inr False)"
proof -
  from window_codes [OF assms] obtain b32 c1 c2 c3 where
    b: "hex_to_base32 hex_seed = Inr b32"
    and g: "generate_otp b32 (timecode clock - 1) = Inr c1"
      "generate_otp b32 (timecode clock) = Inr c2"
      "generate_otp b32 (timecode clock + 1) = Inr c3"
    and f: "\<forall>c \<in> {c1, c2, c3}. length c = 6 \<and> (\<forall>ch \<in> set c. 48 \<le> ch \<and> ch \<le> 57)"
    and a: "\<forall>d x. generate_otp b32 d = Inr x \<longrightarrow> list_all (\<lambda>ch. ch < 128) x"
    and v: "\<forall>nfkc code. list_all (\<lambda>ch. ch < 128) code \<longrightarrow>
          verify_totp_from_hex nfkc hex_seed code 1 clock
            = Inr (code = c1 \<or> code = c2 \<or> code = c3)"
    by blast
  have v': "verify_totp_from_hex nfkc hex_seed code 1 clock
            = Inr (code = c1 \<or> code = c2 \<or> code = c3)"
    if "list_all (\<lambda>ch. ch < 128) code" for code
    using v that by blast
  have exact: "\<forall>code. list_all (\<lambda>ch. ch < 128) code \<longrightarrow>
          verify_totp_from_hex nfkc hex_seed code 1 clock
            = Inr (code = c1 \<or> code = c2 \<or> code = c3)"
    using v' by blast
  have ac: "list_all (\<lambda>ch. ch < 128) c1" "list_all (\<lambda>ch. ch < 128) c2"
    "list_all (\<lambda>ch. ch < 128) c3"
    using a g by blast+
  have acc: "\<forall>c \<in> {c1, c2, c3}. verify_totp_from_hex nfkc hex_seed c 1 clock = Inr True"
    using ac by (simp add: v')
  have len: "\<forall>code. list_all (\<lambda>ch. ch < 128) code \<and> length code \<noteq> 6 \<longrightarrow>
          verify_totp_from_hex nfkc hex_seed code 1 clock = Inr False"
    using f by (auto simp: v')
  have two: "\<forall>d \<in> {- 2, 2}. \<forall>x. generate_otp b32 (timecode clock + d) = Inr x
            \<and> x \<noteq> c1 \<and> x \<noteq> c2 \<and> x \<noteq> c3
          \<longrightarrow> verify_totp_from_hex nfkc hex_seed x 1 clock = Inr False"
  proof (intro ballI allI impI)
    fix d :: int and x
    assume "generate_otp b32 (timecode clock + d) = Inr x \<and> x \<noteq> c1 \<and> x \<noteq> c2 \<and> x \<noteq> c3"
    then have "list_all (\<lambda>ch. ch < 128) x" and "x \<noteq> c1 \<and> x \<noteq> c2 \<and> x \<noteq> c3"
      using a by blast+
    then show "verify_totp_from_hex nfkc hex_seed x 1 clock = Inr False"
      by (simp add: v')
  qed
  have "hex_to_base32 hex_seed = Inr b32
    \<and> generate_otp b32 (timecode clock - 1) = Inr c1
    \<and> generate_otp b32 (timecode clock) = Inr c2
    \<and> generate_otp b32 (timecode clock + 1) = Inr c3
    \<and> (\<forall>c \<in> {c1, c2, c3}. length c = 6 \<and> (\<forall>ch \<in> set c. 48 \<le> ch \<and> ch \<le> 57))
    \<and> (\<forall>c \<in> {c1, c2, c3}. verify_totp_from_hex nfkc hex_seed c 1 clock = Inr True)
    \<and> (\<forall>code. list_all (\<lambda>ch. ch < 128) code \<longrightarrow>
          verify_totp_from_hex nfkc hex_seed code 1 clock
            = Inr (code = c1 \<or> code = c2 \<or> code = c3))
    \<and> (\<forall>code. list_all (\<lambda>ch. ch < 128) code \<and> length code \<noteq> 6 \<longrightarrow>
          verify_totp_from_hex nfkc hex_seed code 1 clock = Inr False)
    \<and> (\<forall>d \<in> {- 2, 2}. \<forall>x. generate_otp b32 (timecode clock + d) = Inr x
            \<and> x \<noteq> c1 \<and> x \<noteq> c2 \<and> x \<noteq> c3
          \<longrightarrow> verify_totp_from_hex nfkc hex_seed x 1 clock = Inr False)"
    using b g f acc exact len two by (intro conjI)
  then show ?thesis by blast
qed

theorem verify_window_witness:
  "seed_invariant zero_seed
   \<and> (30::int) \<le> 1791711930
   \<and> generate_otp zero_secret (timecode 1791711930) = Inr (str_of ''069255'')
   \<and> verify_totp_from_hex id zero_seed (str_of ''069255'') 1 1791711930 = Inr True
   \<and> verify_totp_from_hex id zero_seed (str_of ''69255'') 1 1791711930 = Inr False"
proof -
  have i: "(30::int) \<le> 1791711930" by simp
  have t: "timecode 1791711930 = 59723731"
    by (simp add: timecode_def)
  have o: "generate_otp zero_secret (timecode 1791711930) = Inr (str_of ''069255'')"
    using otp_padded by (simp add: t zero_secret_list)
  from verify_window [OF seed_invariant_zero i, of id]
  obtain b32 c1 c2 c3 where
    w: "hex_to_base32 zero_seed = Inr b32
      \<and> generate_otp b32 (timecode 1791711930 - 1) = Inr c1
      \<and> generate_otp b32 (timecode 1791711930) = Inr c2
      \<and> generate_otp b32 (timecode 1791711930 + 1) = Inr c3
      \<and> (\<forall>c \<in> {c1, c2, c3}. length c = 6 \<and> (\<forall>ch \<in> set c. 48 \<le> ch \<and> ch \<le> 57))
      \<and> (\<forall>c \<in> {c1, c2, c3}. verify_totp_from_hex id zero_seed c 1 1791711930 = Inr True)
      \<and> (\<forall>code. list_all (\<lambda>ch. ch < 128) code \<longrightarrow>
            verify_totp_from_hex id zero_seed code 1 1791711930
              = Inr (code = c1 \<or> code = c2 \<or> code = c3))
      \<and> (\<forall>code. list_all (\<lambda>ch. ch < 128) code \<and> length code \<noteq> 6 \<longrightarrow>
            verify_totp_from_hex id zero_seed code 1 1791711930 = Inr False)
      \<and> (\<forall>d \<in> {- 2, 2}. \<forall>x. generate_otp b32 (timecode 1791711930 + d) = Inr x
              \<and> x \<noteq> c1 \<and> x \<noteq> c2 \<and> x \<noteq> c3
            \<longrightarrow> verify_totp_from_hex id zero_seed x 1 1791711930 = Inr False)"
    by (elim exE) (rule that)
  from w have b: "hex_to_base32 zero_seed = Inr b32"
    by (elim conjE)
  from w have g: "generate_otp b32 (timecode 1791711930) = Inr c2"
    by (elim conjE)
  from w have acc: "\<forall>c \<in> {c1, c2, c3}. verify_totp_from_hex id zero_seed c 1 1791711930 = Inr True"
    by (elim conjE)
  from w have len: "\<forall>code. list_all (\<lambda>ch. ch < 128) code \<and> length code \<noteq> 6 \<longrightarrow>
            verify_totp_from_hex id zero_seed code 1 1791711930 = Inr False"
    by (elim conjE)
  have "b32 = zero_secret"
    using b hex_zero by (simp add: zero_secret_list)
  then have "c2 = str_of ''069255''"
    using g o by simp
  then have y: "verify_totp_from_hex id zero_seed (str_of ''069255'') 1 1791711930 = Inr True"
    using acc by simp
  have n: "verify_totp_from_hex id zero_seed (str_of ''69255'') 1 1791711930 = Inr False"
    using len by (simp add: code_69255)
  show ?thesis
    using seed_invariant_zero o y n by simp
qed

section \<open>A key that failed to load\<close>

lemma SEED_PATH_startup: "SEED_PATH (startup load_pem key_path seed_path) = seed_path"
  by (simp add: startup_def load_private_key_def split: option.splits)

text \<open>
  Claim C8 as stated fails where it says that every provisioning call then fails with the
  key error: after a failed load, a call with an empty \<open>encrypted_seed\<close> is answered
  \<open>400 Missing encrypted_seed\<close>, since that check comes first.
\<close>

theorem key_unavailable_counterexample:
  "PRIVATE_KEY (startup failing_pem (str_of ''student_private.pem'') (str_of ''/data/seed.txt''))
     = None
   \<and> decrypt_seed_endpoint
        (startup failing_pem (str_of ''student_private.pem'') (str_of ''/data/seed.txt''))
        [] empty_fs
      = (HTTPException 400 (Message ''Missing encrypted_seed''), empty_fs)"
  by (simp add: startup_def load_private_key_def failing_pem_def decrypt_seed_endpoint_def)

text \<open>
  Claim C8 as amended. When loading the private key fails at start, the module state is
  still built: no key, and the error recorded. From then on every provisioning call with a
  non-empty \<open>encrypted_seed\<close> is answered \<open>500 Server private key not available\<close> and
  leaves the file system alone (an empty one is answered \<open>400 Missing encrypted_seed\<close>),
  while the answers of the generate and verify endpoints are the same as with any other
  outcome of the load.
\<close>

theorem key_unavailable:
  assumes "load_pem key_path = None"
  shows "PRIVATE_KEY (startup load_pem key_path seed_path) = None
    \<and> privkey_load_error (startup load_pem key_path seed_path)
        = Some (RuntimeError ''Failed to load private key'')
    \<and> (\<forall>req fs. req \<noteq> [] \<longrightarrow>
          decrypt_seed_endpoint (startup load_pem key_path seed_path) req fs
            = (HTTPException 500 (Message ''Server private key not available''), fs))
    \<and> (\<forall>fs. decrypt_seed_endpoint (startup load_pem key_path seed_path) [] fs
            = (HTTPException 400 (Message ''Missing encrypted_seed''), fs))
    \<and> (\<forall>other fs c1 c2.
          generate_2fa_endpoint (startup load_pem key_path seed_path) fs c1 c2
            = generate_2fa_endpoint (startup other key_path seed_path) fs c1 c2)
    \<and> (\<forall>other nfkc code fs c.
          verify_2fa_endpoint nfkc (startup load_pem key_path seed_path) code fs c
            = verify_2fa_endpoint nfkc (startup other key_path seed_path) code fs c)"
proof -
  have k: "PRIVATE_KEY (startup load_pem key_path seed_path) = None"
    and e: "privkey_load_error (startup load_pem key_path seed_path)
        = Some (RuntimeError ''Failed to load private key'')"
    using assms by (simp_all add: startup_def load_private_key_def)
  show ?thesis
    using k e
    by (simp add: decrypt_seed_endpoint_def generate_2fa_endpoint_def verify_2fa_endpoint_def
        SEED_PATH_startup)
qed

theorem key_unavailable_witness:
  "decrypt_seed_endpoint
      (startup failing_pem (str_of ''student_private.pem'') (str_of ''/data/seed.txt''))
      (str_of ''QUJD'') (fs_with_seed (replicate 64 97 @ [10]))
    = (HTTPException 500 (Message ''Server private key not available''),
       fs_with_seed (replicate 64 97 @ [10]))"
  using key_unavailable [of failing_pem "str_of ''student_private.pem''" "str_of ''/data/seed.txt''"]
    QUJD_not_empty
  by (simp add: failing_pem_def)

end
